theory Spec2Isabelle
  imports Complex_Main "HOL-Library.Log_Nat" "HOL-Library.AList" "HOL-Library.Sublist"
    "HOL-Library.Word"
begin

section \<open>Python strings and the path functions of the standard library\<close>

text \<open>
  A Python \<open>str\<close> is modelled as an Isabelle \<open>string\<close>, one \<open>char\<close> per character, so
  that \<open>length\<close>, \<open>take\<close> and \<open>drop\<close> count what \<open>len\<close> and slicing count. Isabelle
  characters have eight bits: the paths and tool output of the model range over the
  characters of Latin-1.
\<close>

definition py_lower_char :: "char \<Rightarrow> char" where
  \<comment> \<open>\<open>str.lower\<close> on one character: A-Z and the upper-case letters of Latin-1
      (U+00C0 to U+00DE without the multiplication sign U+00D7) move up by 32.\<close>
  "py_lower_char c =
     (let n = (of_char c :: nat)
      in if (65 \<le> n \<and> n \<le> 90) \<or> (192 \<le> n \<and> n \<le> 222 \<and> n \<noteq> 215)
         then char_of (n + 32) else c)"

definition lower :: "string \<Rightarrow> string" where
  "lower s = map py_lower_char s"

fun rfind :: "string \<Rightarrow> char \<Rightarrow> int" where
  \<comment> \<open>\<open>str.rfind\<close> for a one-character needle: the highest index, or -1.\<close>
  "rfind [] c = - 1"
| "rfind (x # xs) c =
     (let r = rfind xs c in if 0 \<le> r then r + 1 else if x = c then 0 else - 1)"

definition slice :: "string \<Rightarrow> int \<Rightarrow> int \<Rightarrow> string" where
  \<comment> \<open>\<open>p[i:j]\<close> for the non-negative indices that \<open>_splitext\<close> uses.\<close>
  "slice p i j = take (nat (j - i)) (drop (nat i) p)"

function splitext_scan :: "string \<Rightarrow> char \<Rightarrow> int \<Rightarrow> int \<Rightarrow> string \<times> string" where
  \<comment> \<open>The loop of \<open>genericpath._splitext\<close> that skips all leading dots.\<close>
  "splitext_scan p extsep filenameIndex dotIndex =
     (if filenameIndex < dotIndex then
        (if slice p filenameIndex (filenameIndex + 1) \<noteq> [extsep]
         then (take (nat dotIndex) p, drop (nat dotIndex) p)
         else splitext_scan p extsep (filenameIndex + 1) dotIndex)
      else (p, []))"
  by pat_completeness auto
termination
  by (relation "measure (\<lambda>(p, extsep, filenameIndex, dotIndex). nat (dotIndex - filenameIndex))") auto

declare splitext_scan.simps [simp del]

definition genericpath_splitext :: "string \<Rightarrow> char \<Rightarrow> char option \<Rightarrow> char \<Rightarrow> string \<times> string" where
  "genericpath_splitext p sep altsep extsep =
     (let sepIndex = rfind p sep;
          sepIndex = (case altsep of None \<Rightarrow> sepIndex
                      | Some a \<Rightarrow> max sepIndex (rfind p a));
          dotIndex = rfind p extsep
      in if dotIndex > sepIndex then splitext_scan p extsep (sepIndex + 1) dotIndex
         else (p, []))"

datatype platform = Posix | Windows

definition splitext :: "platform \<Rightarrow> string \<Rightarrow> string \<times> string" where
  \<comment> \<open>\<open>os.path.splitext\<close>: \<open>posixpath\<close> separates at the slash, \<open>ntpath\<close> at the
      backslash (character 0x5C) and at the slash.\<close>
  "splitext pf p =
     (case pf of
        Posix \<Rightarrow> genericpath_splitext p (CHR ''/'') None (CHR ''.'')
      | Windows \<Rightarrow> genericpath_splitext p (CHR 0x5C) (Some (CHR ''/'')) (CHR ''.''))"

definition digit_char :: "nat \<Rightarrow> char" where
  "digit_char d = char_of (48 + d)"

fun str_nat :: "nat \<Rightarrow> string" where
  \<comment> \<open>\<open>str(n)\<close> and \<open>f"{n}"\<close> for a non-negative integer: its decimal digits.\<close>
  "str_nat n = (if n < 10 then [digit_char n] else str_nat (n div 10) @ [digit_char (n mod 10)])"

declare str_nat.simps [simp del]

section \<open>Extension Classifier\<close>

definition image_extensions :: "string list" where
  \<comment> \<open>\<open>self.image_extensions\<close> of the main window, the list every caller passes.\<close>
  "image_extensions = [''.png'', ''.jpg'', ''.jpeg'', ''.bmp'', ''.gif'', ''.tiff'', ''.tif'']"

definition is_image_file :: "platform \<Rightarrow> string \<Rightarrow> string list \<Rightarrow> bool" where
  "is_image_file pf file_path image_exts =
     (let ext = lower (snd (splitext pf file_path)) in ext \<in> set image_exts)"

definition video_extensions :: "string list" where
  "video_extensions =
     [''.mp4'', ''.avi'', ''.mkv'', ''.mov'', ''.wmv'', ''.flv'', ''.webm'', ''.mpeg'', ''.mpg'']"

definition is_video_file :: "platform \<Rightarrow> string \<Rightarrow> bool" where
  "is_video_file pf file_path =
     (let ext = lower (snd (splitext pf file_path)) in ext \<in> set video_extensions)"

section \<open>Name Resolver\<close>

text \<open>
  \<open>str\<close> is injective on the naturals: the digits give the number back. The loop of the
  Name Resolver ends because of it.
\<close>

definition digits_val :: "string \<Rightarrow> nat" where
  "digits_val s = foldl (\<lambda>a c. 10 * a + (of_char c - 48)) 0 s"

lemma of_char_digit_char: "d < 10 \<Longrightarrow> (of_char (digit_char d) :: nat) = 48 + d"
  by (simp add: digit_char_def)

lemma digits_val_str_nat: "digits_val (str_nat n) = n"
proof (induction n rule: str_nat.induct)
  case (1 n)
  show ?case
  proof (cases "n < 10")
    case True
    then show ?thesis
      by (subst str_nat.simps) (simp add: digits_val_def of_char_digit_char)
  next
    case False
    with 1 have "digits_val (str_nat (n div 10)) = n div 10" by simp
    with False show ?thesis
      by (subst str_nat.simps) (simp add: digits_val_def of_char_digit_char)
  qed
qed

lemma str_nat_inj: "str_nat m = str_nat n \<Longrightarrow> m = n"
  by (metis digits_val_str_nat)

definition pending :: "string \<Rightarrow> string \<Rightarrow> string list \<Rightarrow> nat \<Rightarrow> nat set" where
  \<comment> \<open>The counters from \<open>c\<close> on whose candidate name is taken.\<close>
  "pending b s ex c = {k. c \<le> k \<and> b @ ''_'' @ str_nat k @ s \<in> set ex}"

lemma finite_pending: "finite (pending b s ex c)"
proof -
  have "inj (\<lambda>k. b @ ''_'' @ str_nat k @ s)"
    by (auto simp: inj_def dest: str_nat_inj)
  then have "finite ((\<lambda>k. b @ ''_'' @ str_nat k @ s) -` set ex)"
    by (simp add: finite_vimageI)
  moreover have "pending b s ex c \<subseteq> (\<lambda>k. b @ ''_'' @ str_nat k @ s) -` set ex"
    by (auto simp: pending_def)
  ultimately show ?thesis by (rule rev_finite_subset)
qed

lemma pending_step:
  "pending b s ex c =
     (if b @ ''_'' @ str_nat c @ s \<in> set ex then insert c (pending b s ex (Suc c))
      else pending b s ex (Suc c))"
  by (auto simp: pending_def Suc_le_eq le_less)

lemma card_pending_step:
  "card (pending b s ex c) =
     card (pending b s ex (Suc c)) + (if b @ ''_'' @ str_nat c @ s \<in> set ex then 1 else 0)"
proof -
  have "c \<notin> pending b s ex (Suc c)" by (simp add: pending_def)
  then show ?thesis
    by (subst pending_step) (simp add: finite_pending)
qed

function name_loop :: "string \<Rightarrow> string \<Rightarrow> string list \<Rightarrow> string \<Rightarrow> nat \<Rightarrow> string" where
  \<comment> \<open>The \<open>while output_name in existing_names\<close> loop, the same in both resolvers but
      for the target suffix \<open>sfx\<close> of the name template.\<close>
  "name_loop base_name sfx existing_names output_name counter =
     (if output_name \<in> set existing_names
      then name_loop base_name sfx existing_names
             (base_name @ ''_'' @ str_nat counter @ sfx) (counter + 1)
      else output_name)"
  by pat_completeness auto
termination
proof (relation "measure (\<lambda>(b, s, ex, out, c). card (pending b s ex c) + (if out \<in> set ex then 1 else 0))")
  show "wf (measure (\<lambda>(b, s, ex, out, c). card (pending b s ex c) + (if out \<in> set ex then 1 else 0)))"
    by simp
next
  fix base_name sfx :: string and existing_names :: "string list"
    and output_name :: string and counter :: nat
  assume "output_name \<in> set existing_names"
  then show "((base_name, sfx, existing_names, base_name @ ''_'' @ str_nat counter @ sfx, counter + 1),
              (base_name, sfx, existing_names, output_name, counter))
             \<in> measure (\<lambda>(b, s, ex, out, c). card (pending b s ex c) + (if out \<in> set ex then 1 else 0))"
    using card_pending_step [of base_name sfx existing_names counter] by simp
qed

declare name_loop.simps [simp del]

definition generate_output_name :: "platform \<Rightarrow> string \<Rightarrow> string list \<Rightarrow> string" where
  "generate_output_name pf filename existing_names =
     (let base_name = fst (splitext pf filename);
          output_name = base_name @ ''.webp''
      in name_loop base_name ''.webp'' existing_names output_name 1)"

definition generate_video_output_name :: "platform \<Rightarrow> string \<Rightarrow> string list \<Rightarrow> string" where
  "generate_video_output_name pf filename existing_names =
     (let base_name = fst (splitext pf filename);
          output_name = base_name @ ''_compressed.mp4''
      in name_loop base_name ''_compressed.mp4'' existing_names output_name 1)"

fun assign_output_names ::
  "(string \<Rightarrow> string list \<Rightarrow> string) \<Rightarrow> string list \<Rightarrow> string list \<Rightarrow> string list" where
  \<comment> \<open>The resolver applied to one filename after the other, as \<open>add_files_to_list\<close> does:
      \<open>existing_names.append(output_name)\<close> before the next call.\<close>
  "assign_output_names gen existing_names [] = []"
| "assign_output_names gen existing_names (filename # rest) =
     (let output_name = gen filename existing_names
      in output_name # assign_output_names gen (existing_names @ [output_name]) rest)"

section \<open>Quality Preset Table\<close>

record video_settings =
  crf :: nat
  preset :: string

definition quality_settings :: "(string \<times> video_settings) list" where
  \<comment> \<open>The dict literal of \<open>VideoCompressionWorker.__init__\<close>.\<close>
  "quality_settings =
     [(''high'', \<lparr>crf = 18, preset = ''slow''\<rparr>),
      (''medium'', \<lparr>crf = 23, preset = ''medium''\<rparr>),
      (''low'', \<lparr>crf = 28, preset = ''fast''\<rparr>)]"

definition dict_get :: "('k \<times> 'v) list \<Rightarrow> 'k \<Rightarrow> 'v \<Rightarrow> 'v" where
  \<comment> \<open>\<open>d.get(key, default)\<close>.\<close>
  "dict_get d k dflt = (case map_of d k of None \<Rightarrow> dflt | Some v \<Rightarrow> v)"

definition dict_index :: "('k \<times> 'v) list \<Rightarrow> 'k \<Rightarrow> 'v option" where
  \<comment> \<open>\<open>d[key]\<close>; \<open>None\<close> stands for the KeyError.\<close>
  "dict_index d k = map_of d k"

definition resolve_settings :: "string \<Rightarrow> video_settings" where
  \<comment> \<open>\<open>self.quality_settings.get(self.quality, self.quality_settings["medium"])\<close>; the
      key \<open>"medium"\<close> is in the literal, so the default never raises.\<close>
  "resolve_settings quality =
     dict_get quality_settings quality (the (dict_index quality_settings ''medium''))"

section \<open>Properties of the classifier, the resolver and the preset table\<close>

lemmas char_eval = char_of_def bit_Suc_0_iff

lemmas splitext_eval =
  splitext_def genericpath_splitext_def splitext_scan.simps slice_def

lemma lower_image_extensions: "e \<in> set image_extensions \<Longrightarrow> lower e = e"
  by (auto simp: image_extensions_def lower_def py_lower_char_def)

lemma lower_video_extensions: "e \<in> set video_extensions \<Longrightarrow> lower e = e"
  by (auto simp: video_extensions_def lower_def py_lower_char_def)

lemma is_image_file_iff:
  "is_image_file pf p image_extensions \<longleftrightarrow>
     (\<exists>e \<in> set image_extensions. lower (snd (splitext pf p)) = lower e)"
  by (auto simp: is_image_file_def lower_image_extensions)

lemma is_video_file_iff:
  "is_video_file pf p \<longleftrightarrow>
     (\<exists>e \<in> set video_extensions. lower (snd (splitext pf p)) = lower e)"
  by (auto simp: is_video_file_def lower_video_extensions)

lemma classify_photo:
  "is_image_file pf ''photo.JPG'' image_extensions \<and> \<not> is_video_file pf ''photo.JPG''"
  by (cases pf)
     (simp_all add: is_image_file_def is_video_file_def image_extensions_def
        video_extensions_def splitext_eval lower_def py_lower_char_def char_eval)

lemma classify_clip:
  "is_video_file pf ''clip.MKV'' \<and> \<not> is_image_file pf ''clip.MKV'' image_extensions"
  by (cases pf)
     (simp_all add: is_image_file_def is_video_file_def image_extensions_def
        video_extensions_def splitext_eval lower_def py_lower_char_def char_eval)

lemma classify_notes:
  "\<not> is_image_file pf ''notes.txt'' image_extensions \<and> \<not> is_video_file pf ''notes.txt''"
  by (cases pf)
     (simp_all add: is_image_file_def is_video_file_def image_extensions_def
        video_extensions_def splitext_eval lower_def py_lower_char_def char_eval)

text \<open>
  C8. The classifier is a function of the path alone (no file is opened), and it answers
  true exactly when the suffix that \<open>os.path.splitext\<close> gives, dot included, equals an
  entry of the kind's allow-list up to letter case. \<open>photo.JPG\<close> is an image and not a
  video, \<open>clip.MKV\<close> is a video and not an image, \<open>notes.txt\<close> is neither.
\<close>

theorem extension_classifier_correct:
  "(is_image_file pf p image_extensions \<longleftrightarrow>
      (\<exists>e \<in> set image_extensions. lower (snd (splitext pf p)) = lower e)) \<and>
   (is_video_file pf p \<longleftrightarrow>
      (\<exists>e \<in> set video_extensions. lower (snd (splitext pf p)) = lower e)) \<and>
   image_extensions = [''.png'', ''.jpg'', ''.jpeg'', ''.bmp'', ''.gif'', ''.tiff'', ''.tif''] \<and>
   video_extensions =
     [''.mp4'', ''.avi'', ''.mkv'', ''.mov'', ''.wmv'', ''.flv'', ''.webm'', ''.mpeg'', ''.mpg''] \<and>
   is_image_file pf ''photo.JPG'' image_extensions \<and> \<not> is_video_file pf ''photo.JPG'' \<and>
   is_video_file pf ''clip.MKV'' \<and> \<not> is_image_file pf ''clip.MKV'' image_extensions \<and>
   \<not> is_image_file pf ''notes.txt'' image_extensions \<and> \<not> is_video_file pf ''notes.txt''"
  using is_image_file_iff [of pf p] is_video_file_iff [of pf p]
    classify_photo [of pf] classify_clip [of pf] classify_notes [of pf]
  by (simp add: image_extensions_def video_extensions_def)

lemma name_loop_fresh: "name_loop b s ex out c \<notin> set ex"
  by (induction b s ex out c rule: name_loop.induct) (subst name_loop.simps, simp)

lemma name_loop_suffix: "suffix s out \<Longrightarrow> suffix s (name_loop b s ex out c)"
proof (induction b s ex out c rule: name_loop.induct)
  case (1 b s ex out c)
  have "suffix s (b @ ''_'' @ str_nat c @ s)"
    by (metis append.assoc suffixI)
  with 1 show ?case
    by (subst name_loop.simps) simp
qed

lemma generate_output_name_fresh: "generate_output_name pf f ex \<notin> set ex"
  by (simp add: generate_output_name_def Let_def name_loop_fresh)

lemma generate_output_name_suffix: "suffix ''.webp'' (generate_output_name pf f ex)"
  unfolding generate_output_name_def Let_def
  by (rule name_loop_suffix) (rule suffixI, rule refl)

lemma generate_video_output_name_fresh: "generate_video_output_name pf f ex \<notin> set ex"
  by (simp add: generate_video_output_name_def Let_def name_loop_fresh)

lemma generate_video_output_name_suffix:
  "suffix ''_compressed.mp4'' (generate_video_output_name pf f ex)"
  unfolding generate_video_output_name_def Let_def
  by (rule name_loop_suffix) (rule suffixI, rule refl)

lemma length_assign_output_names: "length (assign_output_names gen ex fs) = length fs"
  by (induction fs arbitrary: ex) (simp_all add: Let_def)

lemma assign_output_names_fresh:
  assumes "\<And>f ex. gen f ex \<notin> set ex"
  shows "distinct (assign_output_names gen ex fs) \<and>
         set (assign_output_names gen ex fs) \<inter> set ex = {}"
proof (induction fs arbitrary: ex)
  case Nil
  show ?case by simp
next
  case (Cons f fs)
  let ?out = "gen f ex"
  have ih: "distinct (assign_output_names gen (ex @ [?out]) fs) \<and>
            set (assign_output_names gen (ex @ [?out]) fs) \<inter> set (ex @ [?out]) = {}"
    by (rule Cons.IH)
  have "?out \<notin> set ex" by (rule assms)
  with ih show ?case by (auto simp: Let_def)
qed

lemma assign_output_names_all:
  assumes "\<And>f ex. P (gen f ex)"
  shows "\<forall>n \<in> set (assign_output_names gen ex fs). P n"
  by (induction fs arbitrary: ex) (simp_all add: Let_def assms)

lemma assign_example:
  "assign_output_names (generate_output_name pf) [] [''a.png'', ''a.jpg''] = [''a.webp'', ''a_1.webp'']"
  by (cases pf)
     (simp_all add: generate_output_name_def splitext_eval name_loop.simps str_nat.simps
        digit_char_def char_eval)

text \<open>
  C4. For every sequence of input filenames and every list of names already committed,
  the Name Resolver applied to one filename after the other, each produced name being
  appended to the committed names before the next call, returns as many names as there
  are inputs, pairwise distinct, none of them committed before, and each ending in the
  target suffix: \<open>.webp\<close> for images, \<open>_compressed.mp4\<close> for videos. The loop of the
  resolver always ends (\<open>name_loop\<close> is a total function). The inputs \<open>a.png\<close>,
  \<open>a.jpg\<close> give \<open>a.webp\<close>, \<open>a_1.webp\<close>.
\<close>

theorem name_resolver_unique:
  "length (assign_output_names (generate_output_name pf) ex fs) = length fs \<and>
   distinct (assign_output_names (generate_output_name pf) ex fs) \<and>
   (\<forall>n \<in> set (assign_output_names (generate_output_name pf) ex fs).
      suffix ''.webp'' n \<and> n \<notin> set ex) \<and>
   length (assign_output_names (generate_video_output_name pf) ex fs) = length fs \<and>
   distinct (assign_output_names (generate_video_output_name pf) ex fs) \<and>
   (\<forall>n \<in> set (assign_output_names (generate_video_output_name pf) ex fs).
      suffix ''_compressed.mp4'' n \<and> n \<notin> set ex) \<and>
   assign_output_names (generate_output_name pf) [] [''a.png'', ''a.jpg''] =
     [''a.webp'', ''a_1.webp'']"
proof -
  have i1: "distinct (assign_output_names (generate_output_name pf) ex fs) \<and>
            set (assign_output_names (generate_output_name pf) ex fs) \<inter> set ex = {}"
    by (rule assign_output_names_fresh) (rule generate_output_name_fresh)
  have i2: "\<forall>n \<in> set (assign_output_names (generate_output_name pf) ex fs). suffix ''.webp'' n"
    by (rule assign_output_names_all) (rule generate_output_name_suffix)
  have v1: "distinct (assign_output_names (generate_video_output_name pf) ex fs) \<and>
            set (assign_output_names (generate_video_output_name pf) ex fs) \<inter> set ex = {}"
    by (rule assign_output_names_fresh) (rule generate_video_output_name_fresh)
  have v2: "\<forall>n \<in> set (assign_output_names (generate_video_output_name pf) ex fs).
              suffix ''_compressed.mp4'' n"
    by (rule assign_output_names_all) (rule generate_video_output_name_suffix)
  have ex: "assign_output_names (generate_output_name pf) [] [''a.png'', ''a.jpg''] =
     [''a.webp'', ''a_1.webp'']"
    by (rule assign_example)
  have d: "\<And>(A::string set) B n. A \<inter> B = {} \<Longrightarrow> n \<in> A \<Longrightarrow> n \<notin> B"
    by blast
  from i1 i2 v1 v2 ex show ?thesis
    by (simp only: length_assign_output_names) (blast dest: d)
qed

lemma assign_example_committed:
  "assign_output_names (generate_video_output_name Windows) [''b_compressed.mp4'']
     [''b.mp4'', ''b.avi''] = [''b_1_compressed.mp4'', ''b_2_compressed.mp4'']"
  by (simp add: generate_video_output_name_def splitext_eval name_loop.simps str_nat.simps
        digit_char_def char_eval)

theorem name_resolver_unique_witness:
  "''b_2_compressed.mp4'' \<in> set (assign_output_names (generate_video_output_name Windows)
       [''b_compressed.mp4''] [''b.mp4'', ''b.avi'']) \<and>
   suffix ''_compressed.mp4'' ''b_2_compressed.mp4'' \<and>
   ''b_2_compressed.mp4'' \<notin> set [''b_compressed.mp4''] \<and>
   ''a_1.webp'' \<in> set (assign_output_names (generate_output_name Posix) [] [''a.png'', ''a.jpg'']) \<and>
   suffix ''.webp'' ''a_1.webp'' \<and> ''a_1.webp'' \<notin> set []"
proof -
  have m1: "''b_2_compressed.mp4'' \<in> set (assign_output_names (generate_video_output_name Windows)
       [''b_compressed.mp4''] [''b.mp4'', ''b.avi''])"
    unfolding assign_example_committed by simp
  have m2: "''a_1.webp'' \<in> set (assign_output_names (generate_output_name Posix) [] [''a.png'', ''a.jpg''])"
    unfolding assign_example by simp
  note r1 = name_resolver_unique [of Windows "[''b_compressed.mp4'']" "[''b.mp4'', ''b.avi'']"]
  note r2 = name_resolver_unique [of Posix "[]" "[''a.png'', ''a.jpg'']"]
  from r1 m1 have "suffix ''_compressed.mp4'' ''b_2_compressed.mp4'' \<and>
      ''b_2_compressed.mp4'' \<notin> set [''b_compressed.mp4'']" by blast
  moreover from r2 m2 have "suffix ''.webp'' ''a_1.webp'' \<and> ''a_1.webp'' \<notin> set []" by blast
  ultimately show ?thesis using m1 m2 by blast
qed

lemma resolve_settings_medium_present:
  "dict_index quality_settings ''medium'' = Some \<lparr>crf = 23, preset = ''medium''\<rparr>"
  by (simp add: dict_index_def quality_settings_def)

text \<open>
  C7. The tier table is fixed: \<open>high\<close> gives CRF 18 with preset \<open>slow\<close>, \<open>medium\<close>
  gives CRF 23 with preset \<open>medium\<close>, \<open>low\<close> gives CRF 28 with preset \<open>fast\<close>; every
  other tier value resolves to the parameters of \<open>medium\<close>.
\<close>

theorem quality_tier_table:
  "resolve_settings ''high'' = \<lparr>crf = 18, preset = ''slow''\<rparr> \<and>
   resolve_settings ''medium'' = \<lparr>crf = 23, preset = ''medium''\<rparr> \<and>
   resolve_settings ''low'' = \<lparr>crf = 28, preset = ''fast''\<rparr> \<and>
   (\<forall>q. q \<notin> {''high'', ''medium'', ''low''} \<longrightarrow>
      resolve_settings q = \<lparr>crf = 23, preset = ''medium''\<rparr>)"
  by (simp add: resolve_settings_def quality_settings_def dict_get_def dict_index_def)

theorem quality_tier_table_witness:
  "''HIGH'' \<notin> {''high'', ''medium'', ''low''} \<and>
   resolve_settings ''HIGH'' = \<lparr>crf = 23, preset = ''medium''\<rparr>"
proof -
  have h: "''HIGH'' \<notin> {''high'', ''medium'', ''low''}" by simp
  have "resolve_settings ''HIGH'' = \<lparr>crf = 23, preset = ''medium''\<rparr>"
    by (rule quality_tier_table [THEN conjunct2, THEN conjunct2, THEN conjunct2, rule_format, OF h])
  with h show ?thesis by (rule_tac conjI)
qed

section \<open>Python floats\<close>

text \<open>
  A Python \<open>float\<close> is an IEEE 754 binary64 number. A finite one is modelled by its exact
  value, a rational; every operation computes the exact result and rounds it to the
  nearest number with a 53-bit significand, ties to the even significand, which is what
  the hardware does. The exponent range is not modelled: the values of this program are
  quotients and differences of file sizes and item counts, far from overflow and from the
  subnormal numbers.
\<close>

definition round_half_even :: "rat \<Rightarrow> int" where
  "round_half_even x =
     (let f = \<lfloor>x\<rfloor>; d = x - of_int f
      in if d < 1 / 2 then f else if 1 / 2 < d then f + 1 else if even f then f else f + 1)"

definition ilog2 :: "rat \<Rightarrow> int" where
  \<comment> \<open>The binary exponent of a positive rational: \<open>2 ^ e \<le> x < 2 ^ (e + 1)\<close>. The bit
      lengths of numerator and denominator give it up to one.\<close>
  "ilog2 x =
     (let (a, b) = quotient_of x; d = bitlen a - bitlen b
      in if 2 powi d \<le> x then d else d - 1)"

definition fl :: "rat \<Rightarrow> rat" where
  "fl x =
     (if x = 0 then 0
      else let e = ilog2 \<bar>x\<bar>
           in sgn x * of_int (round_half_even (\<bar>x\<bar> * 2 powi (52 - e))) * 2 powi (e - 52))"

definition py_int :: "rat \<Rightarrow> int" where
  \<comment> \<open>\<open>int(x)\<close> of a float: truncation towards zero.\<close>
  "py_int x = (if 0 \<le> x then \<lfloor>x\<rfloor> else \<lceil>x\<rceil>)"

definition py_round2 :: "rat \<Rightarrow> rat" where
  \<comment> \<open>\<open>round(x, 2)\<close> of a float: the exact value of \<open>x\<close> is rounded to two decimals,
      ties to even, and the decimal is converted to the nearest float.\<close>
  "py_round2 x = fl (of_int (round_half_even (x * 100)) / 100)"

lemma ilog2_bounds:
  assumes "0 < x"
  shows "2 powi (ilog2 x) \<le> x \<and> x < 2 powi (ilog2 x + 1)"
proof -
  obtain a b where q: "quotient_of x = (a, b)" by (cases "quotient_of x")
  then have b: "0 < b" by (rule quotient_of_denom_pos)
  from q have x: "x = of_int a / of_int b" by (rule quotient_of_div)
  with assms b have a: "0 < a" by (simp add: zero_less_divide_iff)
  define la lb where "la = bitlen a" and "lb = bitlen b"
  from bitlen_bounds [OF a] have a1: "2 ^ nat (la - 1) \<le> a" and a2: "a < 2 ^ nat la"
    by (simp_all add: la_def)
  from bitlen_bounds [OF b] have b1: "2 ^ nat (lb - 1) \<le> b" and b2: "b < 2 ^ nat lb"
    by (simp_all add: lb_def)
  have la: "1 \<le> la" using a by (auto simp: la_def bitlen_alt_def)
  have lb: "1 \<le> lb" using b by (auto simp: lb_def bitlen_alt_def)
  have ra1: "(2::rat) powi (la - 1) \<le> of_int a"
  proof -
    have "(of_int (2 ^ nat (la - 1)) :: rat) \<le> of_int a" using a1 by (simp only: of_int_le_iff)
    then show ?thesis using la by (simp add: power_int_nonneg_exp)
  qed
  have ra2: "(of_int a :: rat) < 2 powi la"
  proof -
    have "(of_int a :: rat) < of_int (2 ^ nat la)" using a2 by (simp only: of_int_less_iff)
    then show ?thesis using la by (simp add: power_int_nonneg_exp)
  qed
  have rb1: "(2::rat) powi (lb - 1) \<le> of_int b"
  proof -
    have "(of_int (2 ^ nat (lb - 1)) :: rat) \<le> of_int b" using b1 by (simp only: of_int_le_iff)
    then show ?thesis using lb by (simp add: power_int_nonneg_exp)
  qed
  have rb2: "(of_int b :: rat) < 2 powi lb"
  proof -
    have "(of_int b :: rat) < of_int (2 ^ nat lb)" using b2 by (simp only: of_int_less_iff)
    then show ?thesis using lb by (simp add: power_int_nonneg_exp)
  qed
  have pa: "(0::rat) < of_int a" and pb: "(0::rat) < of_int b" using a b by simp_all
  have up: "x < 2 powi (la - lb + 1)"
  proof -
    have "x < 2 powi la / 2 powi (lb - 1)"
      unfolding x using ra2 rb1 pa pb
      by (intro frac_less) simp_all
    also have "\<dots> = 2 powi (la - (lb - 1))"
      by (simp add: power_int_diff)
    finally show ?thesis by (simp add: algebra_simps)
  qed
  have lo: "2 powi (la - lb - 1) < x"
  proof -
    have "(2::rat) powi (la - 1) / 2 powi lb < x"
      unfolding x using ra1 rb2 pa pb
      by (intro frac_less2) simp_all
    moreover have "(2::rat) powi (la - 1) / 2 powi lb = 2 powi (la - 1 - lb)"
      by (simp add: power_int_diff)
    ultimately show ?thesis by (simp add: algebra_simps)
  qed
  show ?thesis
  proof (cases "2 powi (la - lb) \<le> x")
    case True
    then have "ilog2 x = la - lb" by (simp add: ilog2_def q la_def lb_def)
    with True up show ?thesis by simp
  next
    case False
    then have "ilog2 x = la - lb - 1" by (simp add: ilog2_def q la_def lb_def)
    with False lo show ?thesis by simp
  qed
qed

lemma ilog2_unique:
  assumes "0 < x" and "2 powi e \<le> x" and "x < 2 powi (e + 1)"
  shows "ilog2 x = e"
proof (rule ccontr)
  assume ne: "ilog2 x \<noteq> e"
  from ilog2_bounds [OF assms(1)]
  have l: "2 powi (ilog2 x) \<le> x" and u: "x < 2 powi (ilog2 x + 1)" by simp_all
  show False
  proof (cases "ilog2 x < e")
    case True
    then have "(2::rat) powi (ilog2 x + 1) \<le> 2 powi e"
      by (intro power_int_increasing) simp_all
    with u assms(2) show False by simp
  next
    case False
    with ne have "e + 1 \<le> ilog2 x" by simp
    then have "(2::rat) powi (e + 1) \<le> 2 powi (ilog2 x)"
      by (intro power_int_increasing) simp_all
    with l assms(3) show False by simp
  qed
qed

lemma ilog2_mono:
  assumes "0 < x" and "x \<le> y"
  shows "ilog2 x \<le> ilog2 y"
proof (rule ccontr)
  assume "\<not> ilog2 x \<le> ilog2 y"
  then have "ilog2 y + 1 \<le> ilog2 x" by simp
  then have "(2::rat) powi (ilog2 y + 1) \<le> 2 powi (ilog2 x)"
    by (intro power_int_increasing) simp_all
  moreover from assms have "0 < y" by simp
  then have "y < 2 powi (ilog2 y + 1)" using ilog2_bounds by blast
  moreover have "2 powi (ilog2 x) \<le> x" using ilog2_bounds [OF assms(1)] by blast
  ultimately show False using assms(2) by simp
qed

lemma round_half_even_of_int [simp]: "round_half_even (of_int n) = n"
  by (simp add: round_half_even_def)

lemma round_half_even_lower: "of_int (round_half_even x) \<le> x + 1 / 2"
  unfolding round_half_even_def Let_def
  by (simp, linarith)

lemma round_half_even_upper: "x - 1 / 2 \<le> of_int (round_half_even x)"
  unfolding round_half_even_def Let_def
  by (simp, linarith)

lemma round_half_even_ge_floor: "\<lfloor>x\<rfloor> \<le> round_half_even x"
  by (simp add: round_half_even_def Let_def)

lemma round_half_even_le_floor: "round_half_even x \<le> \<lfloor>x\<rfloor> + 1"
  by (simp add: round_half_even_def Let_def)

lemma round_half_even_mono:
  assumes "x \<le> y"
  shows "round_half_even x \<le> round_half_even y"
proof (cases "\<lfloor>x\<rfloor> = \<lfloor>y\<rfloor>")
  case True
  with assms show ?thesis
    by (auto simp: round_half_even_def Let_def)
next
  case False
  with assms have "\<lfloor>x\<rfloor> + 1 \<le> \<lfloor>y\<rfloor>"
    using floor_mono [OF assms] by simp
  with round_half_even_le_floor [of x] round_half_even_ge_floor [of y]
  show ?thesis by simp
qed

lemma round_half_even_eqI:
  assumes "of_int n - 1 / 2 < x" and "x < of_int n + 1 / 2"
  shows "round_half_even x = n"
proof -
  have "\<lfloor>x\<rfloor> = n \<or> \<lfloor>x\<rfloor> = n - 1" using assms by linarith
  then show ?thesis
  proof
    assume f: "\<lfloor>x\<rfloor> = n"
    with assms show ?thesis by (simp add: round_half_even_def Let_def)
  next
    assume f: "\<lfloor>x\<rfloor> = n - 1"
    with assms show ?thesis by (simp add: round_half_even_def Let_def)
  qed
qed

lemma pow2_add: "(2::rat) powi (a + b) = 2 powi a * 2 powi b"
  by (simp add: power_int_add)

lemma fl_pos_unfold:
  "0 < x \<Longrightarrow>
   fl x = of_int (round_half_even (x * 2 powi (52 - ilog2 x))) * 2 powi (ilog2 x - 52)"
  by (simp add: fl_def Let_def)

lemma fl_uminus: "fl (- x) = - fl x"
  by (simp add: fl_def Let_def)

lemma scaled_bounds:
  assumes "0 < x"
  shows "2 ^ 52 \<le> x * 2 powi (52 - ilog2 x) \<and> x * 2 powi (52 - ilog2 x) < 2 ^ 53"
proof -
  let ?e = "ilog2 x"
  have p: "(0::rat) < 2 powi (52 - ?e)" by simp
  from ilog2_bounds [OF assms] have l: "2 powi ?e \<le> x" and u: "x < 2 powi (?e + 1)"
    by simp_all
  from l p have "2 powi ?e * 2 powi (52 - ?e) \<le> x * 2 powi (52 - ?e)"
    by (simp only: mult_le_cancel_right_pos)
  moreover have "(2::rat) powi ?e * 2 powi (52 - ?e) = 2 powi (?e + (52 - ?e))"
    by (simp only: pow2_add)
  ultimately have A: "2 ^ 52 \<le> x * 2 powi (52 - ?e)" by simp
  from u p have "x * 2 powi (52 - ?e) < 2 powi (?e + 1) * 2 powi (52 - ?e)"
    by (simp only: mult_less_cancel_right_pos)
  moreover have "(2::rat) powi (?e + 1) * 2 powi (52 - ?e) = 2 powi ((?e + 1) + (52 - ?e))"
    by (simp only: pow2_add)
  ultimately have B: "x * 2 powi (52 - ?e) < 2 ^ 53" by simp
  from A B show ?thesis ..
qed

lemma significand_bounds:
  assumes "0 < x"
  shows "2 ^ 52 \<le> round_half_even (x * 2 powi (52 - ilog2 x)) \<and>
         round_half_even (x * 2 powi (52 - ilog2 x)) \<le> 2 ^ 53"
proof -
  let ?m = "x * 2 powi (52 - ilog2 x)"
  from scaled_bounds [OF assms] have l: "of_int (2 ^ 52) \<le> ?m" and u: "?m \<le> of_int (2 ^ 53)"
    by simp_all
  from round_half_even_mono [OF l] round_half_even_mono [OF u]
  show ?thesis by (simp only: round_half_even_of_int)
qed

lemma fl_pos:
  assumes "0 < x"
  shows "0 < fl x"
proof -
  from significand_bounds [OF assms]
  have "0 < round_half_even (x * 2 powi (52 - ilog2 x))" by simp
  then show ?thesis by (simp add: fl_pos_unfold [OF assms])
qed

lemma fl_mono_pos:
  assumes x: "0 < x" and xy: "x \<le> y"
  shows "fl x \<le> fl y"
proof -
  from x xy have y: "0 < y" by simp
  let ?ex = "ilog2 x" and ?ey = "ilog2 y"
  let ?nx = "round_half_even (x * 2 powi (52 - ?ex))"
  let ?ny = "round_half_even (y * 2 powi (52 - ?ey))"
  have fx: "fl x = of_int ?nx * 2 powi (?ex - 52)" by (rule fl_pos_unfold [OF x])
  have fy: "fl y = of_int ?ny * 2 powi (?ey - 52)" by (rule fl_pos_unfold [OF y])
  have le: "?ex \<le> ?ey" by (rule ilog2_mono [OF x xy])
  show ?thesis
  proof (cases "?ex = ?ey")
    case True
    have "x * 2 powi (52 - ?ey) \<le> y * 2 powi (52 - ?ey)"
      using xy by (simp only: mult_le_cancel_right_pos zero_less_power_int zero_less_numeral)
    then have "?nx \<le> ?ny" unfolding True by (rule round_half_even_mono)
    then have "(of_int ?nx :: rat) * 2 powi (?ey - 52) \<le> of_int ?ny * 2 powi (?ey - 52)"
      by (simp add: mult_le_cancel_right_pos)
    then show ?thesis unfolding fx fy True .
  next
    case False
    with le have lt: "?ex + 1 \<le> ?ey" by simp
    from significand_bounds [OF x] have "(of_int ?nx :: rat) \<le> of_int (2 ^ 53)"
      by (simp only: of_int_le_iff)
    then have "fl x \<le> 2 ^ 53 * 2 powi (?ex - 52)"
      unfolding fx by (simp add: mult_le_cancel_right_pos)
    also have "(2::rat) ^ 53 * 2 powi (?ex - 52) = 2 powi (53 + (?ex - 52))"
      by (simp only: pow2_add) simp
    also have "\<dots> = 2 powi (?ex + 1)" by (simp add: algebra_simps)
    also have "\<dots> \<le> 2 powi ?ey" using lt by (intro power_int_increasing) simp_all
    also have "\<dots> = 2 powi (52 + (?ey - 52))" by simp
    also have "\<dots> = 2 ^ 52 * 2 powi (?ey - 52)" by (simp only: pow2_add) simp
    also have "\<dots> \<le> fl y"
    proof -
      from significand_bounds [OF y] have "(of_int (2 ^ 52) :: rat) \<le> of_int ?ny"
        by (simp only: of_int_le_iff)
      then show ?thesis unfolding fy by (simp add: mult_le_cancel_right_pos)
    qed
    finally show ?thesis .
  qed
qed

lemma fl_eqI:
  assumes "0 < x" and "2 powi e \<le> x" and "x < 2 powi (e + 1)"
    and "of_int n - 1 / 2 < x * 2 powi (52 - e)" and "x * 2 powi (52 - e) < of_int n + 1 / 2"
  shows "fl x = of_int n * 2 powi (e - 52)"
proof -
  have e: "ilog2 x = e" by (rule ilog2_unique [OF assms(1-3)])
  have "round_half_even (x * 2 powi (52 - e)) = n"
    by (rule round_half_even_eqI [OF assms(4,5)])
  then show ?thesis by (simp add: fl_pos_unfold [OF assms(1)] e)
qed

lemma fl_1: "fl 1 = 1"
proof -
  have "fl 1 = of_int (2 ^ 52) * 2 powi (0 - 52)"
    by (rule fl_eqI) simp_all
  then show ?thesis by simp
qed

lemma fl_100: "fl 100 = 100"
proof -
  have "fl 100 = of_int (25 * 2 ^ 48) * 2 powi (6 - 52)"
    by (rule fl_eqI) simp_all
  then show ?thesis by simp
qed

lemma fl_two_thirds: "fl (2 / 3) = 6004799503160661 / 2 ^ 53"
proof -
  have "fl (2 / 3) = of_int 6004799503160661 * 2 powi (- 1 - 52)"
    by (rule fl_eqI) simp_all
  then show ?thesis by simp
qed

section \<open>Exceptions, item results and signals\<close>

datatype exn_class = FileNotFoundError | ZeroDivisionError | OtherException

datatype exn = Exn exn_class string
  \<comment> \<open>A raised exception: its class, as far as the handlers tell classes apart, and
      \<open>str(e)\<close>.\<close>

fun class_of :: "exn \<Rightarrow> exn_class" where
  "class_of (Exn c m) = c"

fun str_exn :: "exn \<Rightarrow> string" where
  "str_exn (Exn c m) = m"

definition py_truediv :: "int \<Rightarrow> int \<Rightarrow> exn + rat" where
  \<comment> \<open>\<open>a / b\<close> on two \<open>int\<close>s: the correctly rounded quotient, or ZeroDivisionError.\<close>
  "py_truediv a b =
     (if b = 0 then Inl (Exn ZeroDivisionError ''division by zero'')
      else Inr (fl (of_int a / of_int b)))"

record item_result =
  success :: bool
  "output" :: "string option"
  input_size :: "nat option"
  output_size :: "nat option"
  compression_ratio :: "rat option"
  error :: "string option"

definition failed_result :: "string \<Rightarrow> item_result" where
  \<comment> \<open>The dict \<open>{'success': False, 'error': msg}\<close>; an absent key is \<open>None\<close>.\<close>
  "failed_result msg =
     \<lparr>success = False, output = None, input_size = None, output_size = None,
      compression_ratio = None, error = Some msg\<rparr>"

record image =
  mode :: string
  info :: "string list"
  pixels :: nat

datatype effect =
    ProgressUpdated int string
  | ErrorOccurred string
  | CompressionComplete "(string \<times> item_result) list"
  | ConversionComplete "(string \<times> item_result) list"
  | ResultStored string item_result
  | ImageSaved image string string int bool

text \<open>
  What a run does, in order: the signals it emits, each assignment
  \<open>self.results[input_path] = \<dots>\<close> (\<open>ResultStored\<close>, the moment the item's terminal
  status is known) and each call of \<open>img.save\<close> (\<open>ImageSaved\<close>, with the image, the path,
  the format, the quality and the lossless flag passed).
\<close>

record worker =
  failed_count :: nat
  results :: "(string \<times> item_result) list"
  trace :: "effect list"

record video_worker = worker +
  compressed_count :: nat

record image_worker = worker +
  converted_count :: nat

definition emit :: "effect \<Rightarrow> 'a worker_scheme \<Rightarrow> 'a worker_scheme" where
  "emit e w = w\<lparr>trace := trace w @ [e]\<rparr>"

definition store_result :: "string \<Rightarrow> item_result \<Rightarrow> 'a worker_scheme \<Rightarrow> 'a worker_scheme" where
  \<comment> \<open>\<open>self.results[input_path] = result\<close>: a dict keeps a key's first position.\<close>
  "store_result input_path result w =
     emit (ResultStored input_path result)
       (w\<lparr>results := AList.update input_path result (results w)\<rparr>)"

text \<open>
  Source literals with characters outside Latin-1 are written as their UTF-8 bytes:
  \<open>msg_compressing\<close> is U+6B63 U+5728 U+538B U+7F29 and \<open>": "\<close>, \<open>msg_converting\<close> is
  U+6B63 U+5728 U+8F6C U+6362 and \<open>": "\<close>, \<open>msg_ffmpeg_error\<close> is \<open>"FFmpeg"\<close>, U+9519
  U+8BEF and \<open>": "\<close>, \<open>msg_ffmpeg_not_found\<close> is U+672A U+627E U+5230, \<open>"FFmpeg"\<close>, U+FF0C
  and the request to install it and put it on the system \<open>PATH\<close>, \<open>msg_unknown_error\<close> is
  U+672A U+77E5 U+9519 U+8BEF, \<open>msg_compress_failed\<close> is U+538B U+7F29 U+5931 U+8D25 and a
  space, \<open>msg_convert_failed\<close> is U+8F6C U+6362 U+5931 U+8D25 and a space.
\<close>

definition msg_compressing :: string where
  "msg_compressing =
     [CHR 0xE6, CHR 0xAD, CHR 0xA3, CHR 0xE5, CHR 0x9C, CHR 0xA8, CHR 0xE5, CHR 0x8E, CHR 0x8B,
      CHR 0xE7, CHR 0xBC, CHR 0xA9] @ '': ''"

definition msg_converting :: string where
  "msg_converting =
     [CHR 0xE6, CHR 0xAD, CHR 0xA3, CHR 0xE5, CHR 0x9C, CHR 0xA8, CHR 0xE8, CHR 0xBD, CHR 0xAC,
      CHR 0xE6, CHR 0x8D, CHR 0xA2] @ '': ''"

definition msg_ffmpeg_error :: string where
  "msg_ffmpeg_error =
     ''FFmpeg'' @ [CHR 0xE9, CHR 0x94, CHR 0x99, CHR 0xE8, CHR 0xAF, CHR 0xAF] @ '': ''"

definition msg_ffmpeg_not_found :: string where
  "msg_ffmpeg_not_found =
     [CHR 0xE6, CHR 0x9C, CHR 0xAA, CHR 0xE6, CHR 0x89, CHR 0xBE, CHR 0xE5, CHR 0x88, CHR 0xB0]
     @ ''FFmpeg'' @
     [CHR 0xEF, CHR 0xBC, CHR 0x8C, CHR 0xE8, CHR 0xAF, CHR 0xB7, CHR 0xE7, CHR 0xA1, CHR 0xAE,
      CHR 0xE4, CHR 0xBF, CHR 0x9D, CHR 0xE5, CHR 0xB7, CHR 0xB2, CHR 0xE5, CHR 0xAE, CHR 0x89,
      CHR 0xE8, CHR 0xA3, CHR 0x85, CHR 0xE5, CHR 0xB9, CHR 0xB6, CHR 0xE6, CHR 0xB7, CHR 0xBB,
      CHR 0xE5, CHR 0x8A, CHR 0xA0, CHR 0xE5, CHR 0x88, CHR 0xB0, CHR 0xE7, CHR 0xB3, CHR 0xBB,
      CHR 0xE7, CHR 0xBB, CHR 0x9F]
     @ ''PATH''"

definition msg_unknown_error :: string where
  "msg_unknown_error =
     [CHR 0xE6, CHR 0x9C, CHR 0xAA, CHR 0xE7, CHR 0x9F, CHR 0xA5, CHR 0xE9, CHR 0x94, CHR 0x99,
      CHR 0xE8, CHR 0xAF, CHR 0xAF]"

definition msg_compress_failed :: string where
  "msg_compress_failed =
     [CHR 0xE5, CHR 0x8E, CHR 0x8B, CHR 0xE7, CHR 0xBC, CHR 0xA9, CHR 0xE5, CHR 0xA4, CHR 0xB1,
      CHR 0xE8, CHR 0xB4, CHR 0xA5] @ '' ''"

definition msg_convert_failed :: string where
  "msg_convert_failed =
     [CHR 0xE8, CHR 0xBD, CHR 0xAC, CHR 0xE6, CHR 0x8D, CHR 0xA2, CHR 0xE5, CHR 0xA4, CHR 0xB1,
      CHR 0xE8, CHR 0xB4, CHR 0xA5] @ '' ''"

section \<open>The environment\<close>

text \<open>
  The operating system, the encoder and the imaging library are parameters: a function
  that may raise returns \<open>exn + 'a\<close>. A run is given one environment per item index,
  since the file system changes while the batch is processed.
\<close>

type_synonym bytes = "8 word list"

record os_env =
  basename :: "string \<Rightarrow> string"
  path_join :: "string \<Rightarrow> string \<Rightarrow> string"

record video_env = os_env +
  get_ffmpeg_exe :: "exn + string"
  popen_communicate :: "string list \<Rightarrow> exn + int \<times> bytes"
  decode_ignore :: "bytes \<Rightarrow> string"
  getsize :: "string \<Rightarrow> exn + nat"

record image_env = os_env +
  image_open :: "string \<Rightarrow> exn + image"
  convert :: "image \<Rightarrow> string \<Rightarrow> exn + image"
  save :: "image \<Rightarrow> string \<Rightarrow> string \<Rightarrow> int \<Rightarrow> bool \<Rightarrow> exn option"

record file_info =
  path :: string

record video_file_info = file_info +
  output_path :: string

record image_file_info = file_info +
  output_name :: string

section \<open>Video Item Processor and External Tool Adapter\<close>

definition build_cmd :: "string \<Rightarrow> nat \<Rightarrow> string \<Rightarrow> string \<Rightarrow> string \<Rightarrow> string list" where
  \<comment> \<open>The list literal \<open>cmd\<close> of \<open>compress_video\<close>.\<close>
  "build_cmd ffmpeg_path crf_value preset_name input_path out_path =
     [ffmpeg_path, ''-y'',
      ''-i'', input_path,
      ''-c:v'', ''libx264'',
      ''-crf'', str_nat crf_value,
      ''-preset'', preset_name,
      ''-c:a'', ''aac'',
      ''-b:a'', ''128k'',
      out_path]"

definition compress_try ::
  "'a video_env_scheme \<Rightarrow> string list \<Rightarrow> string \<Rightarrow> string \<Rightarrow> exn + item_result" where
  \<comment> \<open>The body of the \<open>try\<close> of \<open>compress_video\<close>. \<open>popen_communicate\<close> stands for
      \<open>subprocess.Popen\<close> with the two pipes and \<open>CREATE_NO_WINDOW\<close>, followed by
      \<open>communicate\<close>: it raises what either raises (also the AttributeError for the flag
      off Windows), or returns the return code and the bytes of stderr.\<close>
  "compress_try env cmd input_path out_path =
     (case popen_communicate env cmd of
        Inl e \<Rightarrow> Inl e
      | Inr (returncode, stderr) \<Rightarrow>
          if returncode = 0 then
            (case getsize env input_path of
               Inl e \<Rightarrow> Inl e
             | Inr in_size \<Rightarrow>
                 (case getsize env out_path of
                    Inl e \<Rightarrow> Inl e
                  | Inr out_size \<Rightarrow>
                      (case py_truediv (int out_size) (int in_size) of
                         Inl e \<Rightarrow> Inl e
                       | Inr q \<Rightarrow>
                           (let ratio = fl (fl (1 - q) * 100)
                            in Inr \<lparr>success = True, output = Some out_path,
                                    input_size = Some in_size, output_size = Some out_size,
                                    compression_ratio = Some (py_round2 ratio),
                                    error = None\<rparr>))))
          else
            (let error_msg = decode_ignore env stderr
             in Inr (failed_result (msg_ffmpeg_error @ take 200 error_msg))))"

definition compress_video ::
  "'a video_env_scheme \<Rightarrow> string \<Rightarrow> string \<Rightarrow> string \<Rightarrow> exn + item_result" where
  \<comment> \<open>\<open>Inl\<close> is an exception that leaves \<open>compress_video\<close>: only
      \<open>imageio_ffmpeg.get_ffmpeg_exe()\<close>, called before the \<open>try\<close>, can raise one.\<close>
  "compress_video env quality input_path out_path =
     (let settings = resolve_settings quality;
          crf_value = crf settings;
          preset_name = preset settings
      in case get_ffmpeg_exe env of
           Inl e \<Rightarrow> Inl e
         | Inr ffmpeg_path \<Rightarrow>
             (let cmd = build_cmd ffmpeg_path crf_value preset_name input_path out_path
              in case compress_try env cmd input_path out_path of
                   Inr result \<Rightarrow> Inr result
                 | Inl e \<Rightarrow>
                     if class_of e = FileNotFoundError
                     then Inr (failed_result msg_ffmpeg_not_found)
                     else Inr (failed_result (str_exn e))))"

section \<open>Batch Runner\<close>

definition video_except ::
  "'a video_env_scheme \<Rightarrow> string \<Rightarrow> exn \<Rightarrow> video_worker \<Rightarrow> video_worker" where
  \<comment> \<open>The \<open>except Exception as e\<close> of \<open>VideoCompressionWorker.run\<close>.\<close>
  "video_except env input_path e w =
     (let w = w\<lparr>failed_count := failed_count w + 1\<rparr>;
          w = store_result input_path (failed_result (str_exn e)) w
      in emit (ErrorOccurred (msg_compress_failed @ basename env input_path @ '': '' @ str_exn e)) w)"

definition video_item ::
  "'a video_env_scheme \<Rightarrow> string \<Rightarrow> nat \<Rightarrow> nat \<Rightarrow> video_file_info \<Rightarrow> video_worker \<Rightarrow> video_worker" where
  \<comment> \<open>One iteration of the loop of \<open>VideoCompressionWorker.run\<close>.\<close>
  "video_item env quality total_files index file_info w =
     (let input_path = path file_info;
          out_path = output_path file_info
      in case py_truediv (int index + 1) (int total_files) of
           Inl e \<Rightarrow> video_except env input_path e w
         | Inr q \<Rightarrow>
             (let progress = py_int (fl (q * 100));
                  w = emit (ProgressUpdated progress (msg_compressing @ basename env input_path)) w
              in case compress_video env quality input_path out_path of
                   Inl e \<Rightarrow> video_except env input_path e w
                 | Inr result \<Rightarrow>
                     if success result then
                       (let w = w\<lparr>compressed_count := compressed_count w + 1\<rparr>
                        in store_result input_path result w)
                     else
                       (let w = w\<lparr>failed_count := failed_count w + 1\<rparr>;
                            w = store_result input_path result w
                        in emit (ErrorOccurred
                                   (case error result of Some m \<Rightarrow> m | None \<Rightarrow> msg_unknown_error)) w)))"

fun video_loop ::
  "(nat \<Rightarrow> 'a video_env_scheme) \<Rightarrow> string \<Rightarrow> nat \<Rightarrow> nat \<Rightarrow> video_file_info list \<Rightarrow>
   video_worker \<Rightarrow> video_worker" where
  \<comment> \<open>\<open>for index, file_info in enumerate(self.files_to_compress)\<close>, from \<open>index\<close> on.\<close>
  "video_loop world quality total_files index [] w = w"
| "video_loop world quality total_files index (file_info # rest) w =
     video_loop world quality total_files (index + 1) rest
       (video_item (world index) quality total_files index file_info w)"

definition video_init :: video_worker where
  "video_init = \<lparr>failed_count = 0, results = [], trace = [], compressed_count = 0\<rparr>"

definition video_run ::
  "(nat \<Rightarrow> 'a video_env_scheme) \<Rightarrow> string \<Rightarrow> video_file_info list \<Rightarrow> video_worker" where
  \<comment> \<open>\<open>VideoCompressionWorker(files_to_compress, output_dir, quality).run()\<close>.\<close>
  "video_run world quality files_to_compress =
     (let w = video_loop world quality (length files_to_compress) 0 files_to_compress video_init
      in emit (CompressionComplete (results w)) w)"

definition has_alpha :: "image \<Rightarrow> bool" where
  \<comment> \<open>The test before \<open>img.convert('RGBA')\<close>.\<close>
  "has_alpha img \<longleftrightarrow>
     mode img \<in> {''RGBA'', ''LA''} \<or> (mode img = ''P'' \<and> ''transparency'' \<in> set (info img))"

definition image_except ::
  "'a image_env_scheme \<Rightarrow> string \<Rightarrow> exn \<Rightarrow> image_worker \<Rightarrow> image_worker" where
  \<comment> \<open>The \<open>except Exception as e\<close> of \<open>ImageConversionWorker.run\<close>.\<close>
  "image_except env input_path e w =
     (let w = w\<lparr>failed_count := failed_count w + 1\<rparr>;
          w = store_result input_path (failed_result (str_exn e)) w
      in emit (ErrorOccurred (msg_convert_failed @ basename env input_path @ '': '' @ str_exn e)) w)"

definition image_item ::
  "'a image_env_scheme \<Rightarrow> string \<Rightarrow> int \<Rightarrow> nat \<Rightarrow> nat \<Rightarrow> image_file_info \<Rightarrow> image_worker \<Rightarrow>
   image_worker" where
  \<comment> \<open>One iteration of the loop of \<open>ImageConversionWorker.run\<close>.\<close>
  "image_item env output_dir quality total_files index file_info w =
     (let input_path = path file_info;
          output_filename = output_name file_info;
          out_path = path_join env output_dir output_filename
      in case py_truediv (int index + 1) (int total_files) of
           Inl e \<Rightarrow> image_except env input_path e w
         | Inr q \<Rightarrow>
             (let progress = py_int (fl (q * 100));
                  w = emit (ProgressUpdated progress (msg_converting @ basename env input_path)) w
              in case image_open env input_path of
                   Inl e \<Rightarrow> image_except env input_path e w
                 | Inr img \<Rightarrow>
                     (case (if has_alpha img then convert env img ''RGBA'' else Inr img) of
                        Inl e \<Rightarrow> image_except env input_path e w
                      | Inr img \<Rightarrow>
                          (let w = emit (ImageSaved img out_path ''WEBP'' quality False) w
                           in case save env img out_path ''WEBP'' quality False of
                                Some e \<Rightarrow> image_except env input_path e w
                              | None \<Rightarrow>
                                  (let w = w\<lparr>converted_count := converted_count w + 1\<rparr>
                                   in store_result input_path
                                        \<lparr>success = True, output = Some out_path,
                                         input_size = None, output_size = None,
                                         compression_ratio = None, error = None\<rparr> w)))))"

fun image_loop ::
  "(nat \<Rightarrow> 'a image_env_scheme) \<Rightarrow> string \<Rightarrow> int \<Rightarrow> nat \<Rightarrow> nat \<Rightarrow> image_file_info list \<Rightarrow>
   image_worker \<Rightarrow> image_worker" where
  \<comment> \<open>\<open>for index, file_info in enumerate(self.files_to_convert)\<close>, from \<open>index\<close> on.\<close>
  "image_loop world output_dir quality total_files index [] w = w"
| "image_loop world output_dir quality total_files index (file_info # rest) w =
     image_loop world output_dir quality total_files (index + 1) rest
       (image_item (world index) output_dir quality total_files index file_info w)"

definition image_init :: image_worker where
  "image_init = \<lparr>failed_count = 0, results = [], trace = [], converted_count = 0\<rparr>"

definition image_run ::
  "(nat \<Rightarrow> 'a image_env_scheme) \<Rightarrow> string \<Rightarrow> int \<Rightarrow> image_file_info list \<Rightarrow> image_worker" where
  \<comment> \<open>\<open>ImageConversionWorker(files_to_convert, output_dir, quality).run()\<close>.\<close>
  "image_run world output_dir quality files_to_convert =
     (let w = image_loop world output_dir quality (length files_to_convert) 0 files_to_convert
                image_init
      in emit (ConversionComplete (results w)) w)"

section \<open>Properties of the video item processor\<close>

lemma round_half_even_numeral [simp]: "round_half_even (numeral k) = numeral k"
  using round_half_even_of_int [of "numeral k"] by simp

lemma fl_60: "fl 60 = 60"
proof -
  have "fl 60 = of_int 8444249301319680 * 2 powi (5 - 52)"
    by (rule fl_eqI) simp_all
  then show ?thesis by simp
qed

lemma fl_20: "fl 20 = 20"
proof -
  have "fl 20 = of_int 5629499534213120 * 2 powi (4 - 52)"
    by (rule fl_eqI) simp_all
  then show ?thesis by simp
qed

lemma ratio_1000_400: "py_round2 (fl (fl (1 - fl (2 / 5)) * 100)) = 60"
proof -
  have s1: "fl (2 / 5) = 3602879701896397 / 9007199254740992"
  proof -
    have "fl (2 / 5) = of_int 7205759403792794 * 2 powi (- 2 - 52)"
      by (rule fl_eqI) simp_all
    then show ?thesis by simp
  qed
  have s2: "fl (5404319552844595 / 9007199254740992) = 5404319552844595 / 9007199254740992"
  proof -
    have "fl (5404319552844595 / 9007199254740992) = of_int 5404319552844595 * 2 powi (- 1 - 52)"
      by (rule fl_eqI) simp_all
    then show ?thesis by simp
  qed
  have s3: "fl (135107988821114875 / 2251799813685248) = 60"
  proof -
    have "fl (135107988821114875 / 2251799813685248) = of_int 8444249301319680 * 2 powi (5 - 52)"
      by (rule fl_eqI) simp_all
    then show ?thesis by simp
  qed
  have d: "fl (1 - fl (2 / 5)) = 5404319552844595 / 9007199254740992"
    by (simp add: s1 s2)
  have m: "(5404319552844595 / 9007199254740992 :: rat) * 100 =
           135107988821114875 / 2251799813685248"
    by simp
  have r: "fl (fl (1 - fl (2 / 5)) * 100) = 60"
    by (simp only: d m s3)
  show ?thesis
    by (simp only: r) (simp add: py_round2_def fl_60)
qed

lemma ratio_1000_1200: "py_round2 (fl (fl (1 - fl (6 / 5)) * 100)) = - 20"
proof -
  have s1: "fl (6 / 5) = 5404319552844595 / 4503599627370496"
  proof -
    have "fl (6 / 5) = of_int 5404319552844595 * 2 powi (0 - 52)"
      by (rule fl_eqI) simp_all
    then show ?thesis by simp
  qed
  have s2: "fl (900719925474099 / 4503599627370496) = 900719925474099 / 4503599627370496"
  proof -
    have "fl (900719925474099 / 4503599627370496) = of_int 7205759403792792 * 2 powi (- 3 - 52)"
      by (rule fl_eqI) simp_all
    then show ?thesis by simp
  qed
  have s3: "fl (22517998136852475 / 1125899906842624) = 5629499534213119 / 281474976710656"
  proof -
    have "fl (22517998136852475 / 1125899906842624) = of_int 5629499534213119 * 2 powi (4 - 52)"
      by (rule fl_eqI) simp_all
    then show ?thesis by simp
  qed
  have d0: "1 - fl (6 / 5) = - (900719925474099 / 4503599627370496)"
    by (simp add: s1)
  have d: "fl (1 - fl (6 / 5)) = - (900719925474099 / 4503599627370496)"
    by (simp only: d0 fl_uminus s2)
  have m: "- (900719925474099 / 4503599627370496 :: rat) * 100 =
           - (22517998136852475 / 1125899906842624)"
    by simp
  have r: "fl (fl (1 - fl (6 / 5)) * 100) = - (5629499534213119 / 281474976710656)"
    by (simp only: d m fl_uminus s3)
  have h: "round_half_even (- (5629499534213119 / 281474976710656) * 100) = - 2000"
    by (rule round_half_even_eqI) simp_all
  have c: "(of_int (- 2000) :: rat) / 100 = - 20" by simp
  have "py_round2 (- (5629499534213119 / 281474976710656)) = fl (- 20)"
    by (simp only: py_round2_def h c)
  also have "\<dots> = - 20" by (simp only: fl_uminus fl_20)
  finally show ?thesis by (simp only: r)
qed

definition demo_video_env :: video_env where
  "demo_video_env =
     \<lparr>basename = (\<lambda>p. p), path_join = (\<lambda>d f. d @ ''/'' @ f),
      get_ffmpeg_exe = Inr ''ffmpeg'',
      popen_communicate = (\<lambda>cmd. if cmd ! 3 = ''bad.mp4'' then Inr (1, [0x6F, 0x6F, 0x70, 0x73])
                                  else if cmd ! 3 = ''gone.mp4''
                                  then Inl (Exn FileNotFoundError ''[WinError 2]'')
                                  else Inr (0, [])),
      decode_ignore = map (\<lambda>b. char_of (unat b)),
      getsize = (\<lambda>p. if p = ''in.mp4'' then Inr 1000
                      else if p = ''empty.mp4'' then Inr 0 else Inr 1200)\<rparr>"

abbreviation video_cmd :: "string \<Rightarrow> string \<Rightarrow> string \<Rightarrow> string \<Rightarrow> string list" where
  "video_cmd exe quality inp outp \<equiv>
     build_cmd exe (crf (resolve_settings quality)) (preset (resolve_settings quality)) inp outp"
lemma compress_video_success:
  assumes "get_ffmpeg_exe env = Inr exe"
    and "popen_communicate env (video_cmd exe quality inp outp) = Inr (0, err)"
    and "getsize env inp = Inr a" and "getsize env outp = Inr b" and "0 < a"
  shows "compress_video env quality inp outp =
           Inr \<lparr>success = True, output = Some outp, input_size = Some a, output_size = Some b,
                compression_ratio = Some (py_round2 (fl (fl (1 - fl (of_nat b / of_nat a)) * 100))),
                error = None\<rparr>"
  using assms by (simp add: compress_video_def compress_try_def py_truediv_def Let_def)

lemma compress_video_zero_input:
  assumes "get_ffmpeg_exe env = Inr exe"
    and "popen_communicate env (video_cmd exe quality inp outp) = Inr (0, err)"
    and "getsize env inp = Inr 0" and "getsize env outp = Inr b"
  shows "compress_video env quality inp outp = Inr (failed_result ''division by zero'')"
  using assms by (simp add: compress_video_def compress_try_def py_truediv_def Let_def)

lemma compress_video_nonzero_exit:
  assumes "get_ffmpeg_exe env = Inr exe"
    and "popen_communicate env (video_cmd exe quality inp outp) = Inr (rc, err)"
    and "rc \<noteq> 0"
  shows "compress_video env quality inp outp =
           Inr (failed_result (msg_ffmpeg_error @ take 200 (decode_ignore env err)))"
  using assms by (simp add: compress_video_def compress_try_def Let_def)

lemma compress_video_not_found:
  assumes "get_ffmpeg_exe env = Inr exe"
    and "popen_communicate env (video_cmd exe quality inp outp) = Inl (Exn FileNotFoundError m)"
  shows "compress_video env quality inp outp = Inr (failed_result msg_ffmpeg_not_found)"
  using assms by (simp add: compress_video_def compress_try_def Let_def)

lemma compress_video_success_exit0:
  assumes "compress_video env quality inp outp = Inr r" and "success r"
  shows "\<exists>exe err. get_ffmpeg_exe env = Inr exe \<and>
           popen_communicate env (video_cmd exe quality inp outp) = Inr (0, err)"
  using assms
  by (auto simp: compress_video_def compress_try_def Let_def failed_result_def
      split: sum.splits if_splits prod.splits)

lemma compress_video_raises_iff:
  "compress_video env quality inp outp = Inl e \<longleftrightarrow> get_ffmpeg_exe env = Inl e"
  by (auto simp: compress_video_def Let_def split: sum.splits)

lemma not_found_distinct: "msg_ffmpeg_not_found \<noteq> msg_ffmpeg_error @ s"
  by (simp add: msg_ffmpeg_not_found_def msg_ffmpeg_error_def)

lemma compress_video_popen_only:
  assumes "popen_communicate env' (video_cmd exe quality inp outp) =
           popen_communicate env (video_cmd exe quality inp outp)"
    and "get_ffmpeg_exe env = Inr exe"
  shows "compress_video (env\<lparr>popen_communicate := popen_communicate env'\<rparr>) quality inp outp =
         compress_video env quality inp outp"
  using assms
  by (simp add: compress_video_def compress_try_def Let_def split: sum.splits prod.splits)
lemma py_round2_nearest:
  "\<exists>k::int. \<bar>x * 100 - of_int k\<bar> \<le> 1 / 2 \<and> py_round2 x = fl (of_int k / 100)"
proof -
  let ?k = "round_half_even (x * 100)"
  from round_half_even_lower [of "x * 100"] round_half_even_upper [of "x * 100"]
  have "\<bar>x * 100 - of_int ?k\<bar> \<le> 1 / 2" by linarith
  then show ?thesis unfolding py_round2_def by blast
qed

text \<open>
  C5. When the encoder exits with code 0 and the input file has a positive size, the
  video processor returns a success whose \<open>compression_ratio\<close> is the float expression
  \<open>(1 - output_size / input_size) * 100\<close> rounded by \<open>round(\<dots>, 2)\<close>, that is the float
  nearest to a multiple of 0.01 within half a hundredth of it. Sizes 1000 and 400 give
  60.0, sizes 1000 and 1200 give -20.0, and the result is a success whatever the sign.
\<close>

theorem compression_ratio_reported:
  assumes "get_ffmpeg_exe env = Inr exe"
    and "popen_communicate env (video_cmd exe quality inp outp) = Inr (0, err)"
    and "getsize env inp = Inr a" and "getsize env outp = Inr b" and "0 < a"
  shows "\<exists>r ratio. compress_video env quality inp outp = Inr r \<and> success r \<and>
           input_size r = Some a \<and> output_size r = Some b \<and>
           ratio = fl (fl (1 - fl (of_nat b / of_nat a)) * 100) \<and>
           compression_ratio r = Some (py_round2 ratio) \<and>
           (\<exists>k::int. \<bar>ratio * 100 - of_int k\<bar> \<le> 1 / 2 \<and>
              compression_ratio r = Some (fl (of_int k / 100))) \<and>
           (a = 1000 \<and> b = 400 \<longrightarrow> compression_ratio r = Some 60) \<and>
           (a = 1000 \<and> b = 1200 \<longrightarrow> compression_ratio r = Some (- 20))"
proof -
  let ?ratio = "fl (fl (1 - fl (of_nat b / of_nat a)) * 100)"
  let ?r = "\<lparr>success = True, output = Some outp, input_size = Some a, output_size = Some b,
             compression_ratio = Some (py_round2 ?ratio), error = None\<rparr>"
  have r: "compress_video env quality inp outp = Inr ?r"
    by (rule compress_video_success [OF assms])
  have e1: "a = 1000 \<and> b = 400 \<longrightarrow> py_round2 ?ratio = 60"
    using ratio_1000_400 by simp
  have e2: "a = 1000 \<and> b = 1200 \<longrightarrow> py_round2 ?ratio = - 20"
    using ratio_1000_1200 by simp
  from py_round2_nearest [of ?ratio] obtain k :: int
    where k: "\<bar>?ratio * 100 - of_int k\<bar> \<le> 1 / 2" "py_round2 ?ratio = fl (of_int k / 100)"
    by blast
  show ?thesis
    apply (rule exI [of _ ?r])
    apply (rule exI [of _ ?ratio])
    using r e1 e2 k by auto
qed

lemma demo_video_cmd_input: "video_cmd exe quality inp outp ! 3 = inp"
  by (simp add: build_cmd_def)

theorem compression_ratio_reported_witness:
  "\<exists>r. compress_video demo_video_env ''medium'' ''in.mp4'' ''out.mp4'' = Inr r \<and> success r \<and>
       input_size r = Some 1000 \<and> output_size r = Some 1200 \<and>
       compression_ratio r = Some (- 20)"
proof -
  have h1: "get_ffmpeg_exe demo_video_env = Inr ''ffmpeg''"
    by (simp add: demo_video_env_def)
  have h2: "popen_communicate demo_video_env (video_cmd ''ffmpeg'' ''medium'' ''in.mp4'' ''out.mp4'')
              = Inr (0, [])"
    by (simp add: demo_video_env_def demo_video_cmd_input)
  have h3: "getsize demo_video_env ''in.mp4'' = Inr 1000"
    by (simp add: demo_video_env_def)
  have h4: "getsize demo_video_env ''out.mp4'' = Inr 1200"
    by (simp add: demo_video_env_def)
  have h5: "(0::nat) < 1000" by simp
  from compression_ratio_reported [OF h1 h2 h3 h4 h5] show ?thesis by blast
qed

lemma video_cmd_example:
  "video_cmd ''ffmpeg.exe'' ''high'' ''a.avi'' ''a_compressed.mp4'' =
     [''ffmpeg.exe'', ''-y'', ''-i'', ''a.avi'', ''-c:v'', ''libx264'', ''-crf'', ''18'',
      ''-preset'', ''slow'', ''-c:a'', ''aac'', ''-b:a'', ''128k'', ''a_compressed.mp4'']"
  by (simp add: build_cmd_def resolve_settings_def quality_settings_def dict_get_def
        dict_index_def str_nat.simps digit_char_def char_eval)

text \<open>
  The external tool adapter once the encoder's path is resolved. The video processor
  spawns exactly one command: the path followed by \<open>-y -i input -c:v libx264 -crf CRF
  -preset PRESET -c:a aac -b:a 128k output\<close>, CRF and preset being those of the tier; its
  result depends on the spawn function only through the outcome of that command. A
  success means the exit code was 0. A non-zero exit code gives a failure whose message
  is the prefix literal followed by the first at most 200 characters of stderr, decoded
  by a function that never raises. A FileNotFoundError of the spawn gives a failure with
  the fixed install-and-PATH message, which no exit-code message equals. What happens
  when the path cannot be resolved is the subject of the last section.
\<close>

lemma external_tool_resolved:
  fixes env :: "'a video_env_scheme"
  assumes "get_ffmpeg_exe env = Inr exe"
  shows "video_cmd exe quality inp outp =
           [exe, ''-y'', ''-i'', inp, ''-c:v'', ''libx264'',
            ''-crf'', str_nat (crf (resolve_settings quality)),
            ''-preset'', preset (resolve_settings quality),
            ''-c:a'', ''aac'', ''-b:a'', ''128k'', outp] \<and>
         (\<forall>env' :: 'a video_env_scheme.
            popen_communicate env' (video_cmd exe quality inp outp) =
                   popen_communicate env (video_cmd exe quality inp outp) \<longrightarrow>
            compress_video (env\<lparr>popen_communicate := popen_communicate env'\<rparr>) quality inp outp =
            compress_video env quality inp outp) \<and>
         (\<forall>r. compress_video env quality inp outp = Inr r \<and> success r \<longrightarrow>
            (\<exists>err. popen_communicate env (video_cmd exe quality inp outp) = Inr (0, err))) \<and>
         (\<forall>rc err. popen_communicate env (video_cmd exe quality inp outp) = Inr (rc, err) \<and> rc \<noteq> 0 \<longrightarrow>
            compress_video env quality inp outp =
              Inr (failed_result (msg_ffmpeg_error @ take 200 (decode_ignore env err))) \<and>
            length (take 200 (decode_ignore env err)) \<le> 200 \<and>
            prefix (take 200 (decode_ignore env err)) (decode_ignore env err)) \<and>
         (\<forall>m. popen_communicate env (video_cmd exe quality inp outp) = Inl (Exn FileNotFoundError m) \<longrightarrow>
            compress_video env quality inp outp = Inr (failed_result msg_ffmpeg_not_found) \<and>
            (\<forall>s. msg_ffmpeg_not_found \<noteq> msg_ffmpeg_error @ s))"
proof (intro conjI allI impI)
  show "video_cmd exe quality inp outp =
           [exe, ''-y'', ''-i'', inp, ''-c:v'', ''libx264'',
            ''-crf'', str_nat (crf (resolve_settings quality)),
            ''-preset'', preset (resolve_settings quality),
            ''-c:a'', ''aac'', ''-b:a'', ''128k'', outp]"
    by (simp add: build_cmd_def)
next
  fix env' :: "'a video_env_scheme"
  assume "popen_communicate env' (video_cmd exe quality inp outp) =
          popen_communicate env (video_cmd exe quality inp outp)"
  then show "compress_video (env\<lparr>popen_communicate := popen_communicate env'\<rparr>) quality inp outp =
             compress_video env quality inp outp"
    using assms by (rule compress_video_popen_only)
next
  fix r
  assume "compress_video env quality inp outp = Inr r \<and> success r"
  then obtain exe' err where "get_ffmpeg_exe env = Inr exe'"
      "popen_communicate env (video_cmd exe' quality inp outp) = Inr (0, err)"
    using compress_video_success_exit0 by blast
  with assms show "\<exists>err. popen_communicate env (video_cmd exe quality inp outp) = Inr (0, err)"
    by auto
next
  fix rc err
  assume "popen_communicate env (video_cmd exe quality inp outp) = Inr (rc, err) \<and> rc \<noteq> 0"
  then show "compress_video env quality inp outp =
              Inr (failed_result (msg_ffmpeg_error @ take 200 (decode_ignore env err)))"
    using assms compress_video_nonzero_exit by blast
next
  fix rc :: int and err :: bytes
  show "length (take 200 (decode_ignore env err)) \<le> 200" by simp
next
  fix rc :: int and err :: bytes
  show "prefix (take 200 (decode_ignore env err)) (decode_ignore env err)"
    by (rule take_is_prefix)
next
  fix m
  assume "popen_communicate env (video_cmd exe quality inp outp) = Inl (Exn FileNotFoundError m)"
  then show "compress_video env quality inp outp = Inr (failed_result msg_ffmpeg_not_found)"
    using assms compress_video_not_found by blast
next
  fix m s
  show "msg_ffmpeg_not_found \<noteq> msg_ffmpeg_error @ s" by (rule not_found_distinct)
qed

lemma external_tool_resolved_example:
  "compress_video demo_video_env ''low'' ''bad.mp4'' ''bad_compressed.mp4'' =
     Inr (failed_result (msg_ffmpeg_error @ ''oops'')) \<and>
   compress_video demo_video_env ''low'' ''gone.mp4'' ''gone_compressed.mp4'' =
     Inr (failed_result msg_ffmpeg_not_found) \<and>
   (\<exists>r. compress_video demo_video_env ''low'' ''in.mp4'' ''in_compressed.mp4'' = Inr r \<and> success r) \<and>
   (\<exists>err. popen_communicate demo_video_env
            (video_cmd ''ffmpeg'' ''low'' ''in.mp4'' ''in_compressed.mp4'') = Inr (0, err))"
proof -
  have exe: "get_ffmpeg_exe demo_video_env = Inr ''ffmpeg''"
    by (simp add: demo_video_env_def)
  have bad: "popen_communicate demo_video_env
               (video_cmd ''ffmpeg'' ''low'' ''bad.mp4'' ''bad_compressed.mp4'') =
             Inr (1, [0x6F, 0x6F, 0x70, 0x73]) \<and> (1::int) \<noteq> 0"
    by (simp add: demo_video_env_def demo_video_cmd_input)
  have dec: "take 200 (decode_ignore demo_video_env [0x6F, 0x6F, 0x70, 0x73]) = ''oops''"
    by (simp add: demo_video_env_def char_eval)
  have gone: "popen_communicate demo_video_env
               (video_cmd ''ffmpeg'' ''low'' ''gone.mp4'' ''gone_compressed.mp4'') =
             Inl (Exn FileNotFoundError ''[WinError 2]'')"
    by (simp add: demo_video_env_def demo_video_cmd_input)
  have ok: "compress_video demo_video_env ''low'' ''in.mp4'' ''in_compressed.mp4'' =
              Inr \<lparr>success = True, output = Some ''in_compressed.mp4'', input_size = Some 1000,
                   output_size = Some 1200,
                   compression_ratio =
                     Some (py_round2 (fl (fl (1 - fl (of_nat 1200 / of_nat 1000)) * 100))),
                   error = None\<rparr>"
    by (rule compress_video_success [OF exe])
       (simp_all add: demo_video_env_def demo_video_cmd_input)
  note c_bad = external_tool_resolved [OF exe, of "''low''" "''bad.mp4''" "''bad_compressed.mp4''"]
  note c_gone = external_tool_resolved [OF exe, of "''low''" "''gone.mp4''" "''gone_compressed.mp4''"]
  note c_ok = external_tool_resolved [OF exe, of "''low''" "''in.mp4''" "''in_compressed.mp4''"]
  from c_bad bad have 1: "compress_video demo_video_env ''low'' ''bad.mp4'' ''bad_compressed.mp4'' =
     Inr (failed_result (msg_ffmpeg_error @
       take 200 (decode_ignore demo_video_env [0x6F, 0x6F, 0x70, 0x73])))"
    by blast
  from c_gone gone have 2: "compress_video demo_video_env ''low'' ''gone.mp4'' ''gone_compressed.mp4'' =
     Inr (failed_result msg_ffmpeg_not_found)"
    by blast
  from c_ok have imp: "\<And>r. compress_video demo_video_env ''low'' ''in.mp4'' ''in_compressed.mp4'' = Inr r
        \<and> success r \<Longrightarrow> \<exists>err. popen_communicate demo_video_env
            (video_cmd ''ffmpeg'' ''low'' ''in.mp4'' ''in_compressed.mp4'') = Inr (0, err)"
    by blast
  have 3: "\<exists>err. popen_communicate demo_video_env
            (video_cmd ''ffmpeg'' ''low'' ''in.mp4'' ''in_compressed.mp4'') = Inr (0, err)"
    by (rule imp, rule conjI, rule ok) simp
  from 1 2 3 ok show ?thesis by (simp only: dec) simp
qed

section \<open>What one iteration contributes\<close>

text \<open>
  The following functions describe an iteration from outside: the percentage it
  announces, the result it stores and the events it appends. The lemmas after them
  prove that the loop bodies above do exactly that.
\<close>

definition percent :: "nat \<Rightarrow> nat \<Rightarrow> int" where
  \<comment> \<open>\<open>int((index + 1) / self.total_files * 100)\<close>.\<close>
  "percent index total_files =
     py_int (fl (fl (of_nat (index + 1) / of_nat total_files) * 100))"

definition video_outcome :: "'a video_env_scheme \<Rightarrow> string \<Rightarrow> video_file_info \<Rightarrow> item_result" where
  "video_outcome env quality f =
     (case compress_video env quality (path f) (output_path f) of
        Inl e \<Rightarrow> failed_result (str_exn e)
      | Inr r \<Rightarrow> r)"

definition video_notices :: "'a video_env_scheme \<Rightarrow> string \<Rightarrow> video_file_info \<Rightarrow> effect list" where
  "video_notices env quality f =
     (case compress_video env quality (path f) (output_path f) of
        Inl e \<Rightarrow>
          [ErrorOccurred (msg_compress_failed @ basename env (path f) @ '': '' @ str_exn e)]
      | Inr r \<Rightarrow>
          if success r then []
          else [ErrorOccurred (case error r of Some m \<Rightarrow> m | None \<Rightarrow> msg_unknown_error)])"

definition video_block ::
  "'a video_env_scheme \<Rightarrow> string \<Rightarrow> nat \<Rightarrow> nat \<Rightarrow> video_file_info \<Rightarrow> effect list" where
  "video_block env quality total_files index f =
     [ProgressUpdated (percent index total_files) (msg_compressing @ basename env (path f)),
      ResultStored (path f) (video_outcome env quality f)]
     @ video_notices env quality f"

definition image_prepare :: "'a image_env_scheme \<Rightarrow> image_file_info \<Rightarrow> exn + image" where
  \<comment> \<open>The image that reaches \<open>img.save\<close>, or what \<open>Image.open\<close> or \<open>convert\<close> raised.\<close>
  "image_prepare env f =
     (case image_open env (path f) of
        Inl e \<Rightarrow> Inl e
      | Inr img \<Rightarrow> if has_alpha img then convert env img ''RGBA'' else Inr img)"

definition image_fault :: "'a image_env_scheme \<Rightarrow> string \<Rightarrow> int \<Rightarrow> image_file_info \<Rightarrow> exn option" where
  \<comment> \<open>The exception of the iteration, if one is raised.\<close>
  "image_fault env output_dir quality f =
     (case image_prepare env f of
        Inl e \<Rightarrow> Some e
      | Inr img \<Rightarrow>
          save env img (path_join env output_dir (output_name f)) ''WEBP'' quality False)"

definition image_outcome :: "'a image_env_scheme \<Rightarrow> string \<Rightarrow> int \<Rightarrow> image_file_info \<Rightarrow> item_result" where
  "image_outcome env output_dir quality f =
     (case image_fault env output_dir quality f of
        Some e \<Rightarrow> failed_result (str_exn e)
      | None \<Rightarrow>
          \<lparr>success = True, output = Some (path_join env output_dir (output_name f)),
           input_size = None, output_size = None, compression_ratio = None, error = None\<rparr>)"

definition image_saves :: "'a image_env_scheme \<Rightarrow> string \<Rightarrow> int \<Rightarrow> image_file_info \<Rightarrow> effect list" where
  "image_saves env output_dir quality f =
     (case image_prepare env f of
        Inl e \<Rightarrow> []
      | Inr img \<Rightarrow>
          [ImageSaved img (path_join env output_dir (output_name f)) ''WEBP'' quality False])"

definition image_notices :: "'a image_env_scheme \<Rightarrow> string \<Rightarrow> int \<Rightarrow> image_file_info \<Rightarrow> effect list" where
  "image_notices env output_dir quality f =
     (case image_fault env output_dir quality f of
        Some e \<Rightarrow>
          [ErrorOccurred (msg_convert_failed @ basename env (path f) @ '': '' @ str_exn e)]
      | None \<Rightarrow> [])"

definition image_block ::
  "'a image_env_scheme \<Rightarrow> string \<Rightarrow> int \<Rightarrow> nat \<Rightarrow> nat \<Rightarrow> image_file_info \<Rightarrow> effect list" where
  "image_block env output_dir quality total_files index f =
     [ProgressUpdated (percent index total_files) (msg_converting @ basename env (path f))]
     @ image_saves env output_dir quality f
     @ [ResultStored (path f) (image_outcome env output_dir quality f)]
     @ image_notices env output_dir quality f"

fun progress_values :: "effect list \<Rightarrow> int list" where
  \<comment> \<open>The percentages of the progress signals of a trace, in order.\<close>
  "progress_values [] = []"
| "progress_values (ProgressUpdated p s # es) = p # progress_values es"
| "progress_values (e # es) = progress_values es"
section \<open>Properties of the batch runner\<close>

lemma trace_emit [simp]: "trace (emit e w) = trace w @ [e]"
  by (simp add: emit_def)

lemma results_emit [simp]: "results (emit e w) = results w"
  by (simp add: emit_def)

lemma trace_store_result [simp]:
  "trace (store_result k r w) = trace w @ [ResultStored k r]"
  by (simp add: store_result_def)

lemma results_store_result [simp]:
  "results (store_result k r w) = AList.update k r (results w)"
  by (simp add: store_result_def)

lemma py_truediv_index:
  "total_files \<noteq> 0 \<Longrightarrow>
   py_truediv (int index + 1) (int total_files) =
     Inr (fl (of_nat (index + 1) / of_nat total_files))"
  by (simp add: py_truediv_def add.commute)

lemma video_item_trace:
  assumes "total_files \<noteq> 0"
  shows "trace (video_item env quality total_files index f w) =
         trace w @ video_block env quality total_files index f"
  using assms
  by (simp add: video_item_def py_truediv_index video_block_def video_outcome_def
        video_notices_def video_except_def percent_def Let_def split: sum.splits)

lemma video_item_results:
  assumes "total_files \<noteq> 0"
  shows "results (video_item env quality total_files index f w) =
         AList.update (path f) (video_outcome env quality f) (results w)"
  using assms
  by (simp add: video_item_def py_truediv_index video_outcome_def video_except_def Let_def
        split: sum.splits)

lemma image_item_trace:
  assumes "total_files \<noteq> 0"
  shows "trace (image_item env output_dir quality total_files index f w) =
         trace w @ image_block env output_dir quality total_files index f"
  using assms
  by (simp add: image_item_def py_truediv_index image_block_def image_outcome_def
        image_notices_def image_saves_def image_fault_def image_prepare_def image_except_def
        percent_def Let_def split: sum.splits option.splits)

lemma image_item_results:
  assumes "total_files \<noteq> 0"
  shows "results (image_item env output_dir quality total_files index f w) =
         AList.update (path f) (image_outcome env output_dir quality f) (results w)"
  using assms
  by (simp add: image_item_def py_truediv_index image_outcome_def image_fault_def
        image_prepare_def image_except_def Let_def split: sum.splits option.splits)

lemma video_loop_trace:
  assumes "total_files = index + length files"
  shows "trace (video_loop world quality total_files index files w) =
         trace w @ concat (map (\<lambda>(i, f). video_block (world i) quality total_files i f)
                             (enumerate index files))"
  using assms
proof (induction files arbitrary: index w)
  case Nil
  show ?case by simp
next
  case (Cons f files)
  from Cons.prems have nz: "total_files \<noteq> 0" and nx: "total_files = Suc index + length files"
    by simp_all
  show ?case
    by (simp add: Cons.IH [OF nx] video_item_trace [OF nz])
qed

lemma video_loop_results:
  assumes "total_files = index + length files"
  shows "results (video_loop world quality total_files index files w) =
         fold (\<lambda>(i, f). AList.update (path f) (video_outcome (world i) quality f))
              (enumerate index files) (results w)"
  using assms
proof (induction files arbitrary: index w)
  case Nil
  show ?case by simp
next
  case (Cons f files)
  from Cons.prems have nz: "total_files \<noteq> 0" and nx: "total_files = Suc index + length files"
    by simp_all
  show ?case
    by (simp add: Cons.IH [OF nx] video_item_results [OF nz])
qed

lemma image_loop_trace:
  assumes "total_files = index + length files"
  shows "trace (image_loop world output_dir quality total_files index files w) =
         trace w @ concat (map (\<lambda>(i, f). image_block (world i) output_dir quality total_files i f)
                             (enumerate index files))"
  using assms
proof (induction files arbitrary: index w)
  case Nil
  show ?case by simp
next
  case (Cons f files)
  from Cons.prems have nz: "total_files \<noteq> 0" and nx: "total_files = Suc index + length files"
    by simp_all
  show ?case
    by (simp add: Cons.IH [OF nx] image_item_trace [OF nz])
qed

lemma image_loop_results:
  assumes "total_files = index + length files"
  shows "results (image_loop world output_dir quality total_files index files w) =
         fold (\<lambda>(i, f). AList.update (path f) (image_outcome (world i) output_dir quality f))
              (enumerate index files) (results w)"
  using assms
proof (induction files arbitrary: index w)
  case Nil
  show ?case by simp
next
  case (Cons f files)
  from Cons.prems have nz: "total_files \<noteq> 0" and nx: "total_files = Suc index + length files"
    by simp_all
  show ?case
    by (simp add: Cons.IH [OF nx] image_item_results [OF nz])
qed

lemma fold_update_fresh:
  assumes "distinct (map fst kvs)" and "fst ` set kvs \<inter> fst ` set al = {}"
  shows "fold (\<lambda>(k, v). AList.update k v) kvs al = al @ kvs"
  using assms
proof (induction kvs arbitrary: al)
  case Nil
  show ?case by simp
next
  case (Cons kv kvs)
  obtain k v where kv: "kv = (k, v)" by (cases kv)
  from Cons.prems kv have fresh: "k \<notin> fst ` set al" by auto
  then have upd: "AList.update k v al = al @ [(k, v)]"
    by (induction al) auto
  from Cons.prems kv have d: "distinct (map fst kvs)"
    and disj: "fst ` set kvs \<inter> fst ` set (al @ [(k, v)]) = {}"
    by auto
  show ?case
    by (simp add: kv upd Cons.IH [OF d disj])
qed

lemma fold_update_keys:
  "fst ` set (fold (\<lambda>(k, v). AList.update k v) kvs al) = fst ` set kvs \<union> fst ` set al"
proof (induction kvs arbitrary: al)
  case Nil
  show ?case by simp
next
  case (Cons kv kvs)
  obtain k v where kv: "kv = (k, v)" by (cases kv)
  have "fst ` set (AList.update k v al) = insert k (fst ` set al)"
    using dom_update [of k v al] by simp
  then show ?case by (auto simp: kv Cons.IH)
qed

lemma fold_update_distinct:
  "distinct (map fst al) \<Longrightarrow> distinct (map fst (fold (\<lambda>(k, v). AList.update k v) kvs al))"
proof (induction kvs arbitrary: al)
  case Nil
  then show ?case by simp
next
  case (Cons kv kvs)
  obtain k v where kv: "kv = (k, v)" by (cases kv)
  from Cons.prems have "distinct (map fst (AList.update k v al))" by (rule distinct_update)
  then show ?case by (simp add: kv Cons.IH)
qed

lemma progress_values_append [simp]:
  "progress_values (xs @ ys) = progress_values xs @ progress_values ys"
  by (induction xs rule: progress_values.induct) simp_all

lemma progress_values_video_block [simp]:
  "progress_values (video_block env quality total_files index f) = [percent index total_files]"
  by (simp add: video_block_def video_notices_def split: sum.splits)

lemma progress_values_image_block [simp]:
  "progress_values (image_block env output_dir quality total_files index f) =
     [percent index total_files]"
  by (simp add: image_block_def image_notices_def image_saves_def split: sum.splits option.splits)

lemma fl_0 [simp]: "fl 0 = 0"
  by (simp add: fl_def)

lemma fl_nonneg:
  assumes "0 \<le> x"
  shows "0 \<le> fl x"
proof (cases "x = 0")
  case True
  then show ?thesis by simp
next
  case False
  with assms have "0 < x" by simp
  then have "0 < fl x" by (rule fl_pos)
  then show ?thesis by simp
qed

lemma percent_nonneg: "0 \<le> percent index total_files"
proof -
  have "0 \<le> (of_nat (index + 1) / of_nat total_files :: rat)" by simp
  then have "0 \<le> fl (of_nat (index + 1) / of_nat total_files)" by (rule fl_nonneg)
  then have "0 \<le> fl (of_nat (index + 1) / of_nat total_files) * 100" by simp
  then have "0 \<le> fl (fl (of_nat (index + 1) / of_nat total_files) * 100)" by (rule fl_nonneg)
  then show ?thesis unfolding percent_def py_int_def by simp
qed

lemma percent_mono:
  assumes "i \<le> j" and "0 < total_files"
  shows "percent i total_files \<le> percent j total_files"
proof -
  let ?q = "\<lambda>k. (of_nat (k + 1) / of_nat total_files :: rat)"
  from assms have pos: "0 < ?q i" by simp
  from assms have le: "?q i \<le> ?q j" by (simp add: divide_right_mono)
  have f1: "fl (?q i) \<le> fl (?q j)" by (rule fl_mono_pos [OF pos le])
  have p1: "0 < fl (?q i) * 100" using fl_pos [OF pos] by simp
  from f1 have "fl (?q i) * 100 \<le> fl (?q j) * 100" by simp
  then have f2: "fl (fl (?q i) * 100) \<le> fl (fl (?q j) * 100)"
    by (rule fl_mono_pos [OF p1])
  have n1: "0 \<le> fl (fl (?q i) * 100)" using fl_pos [OF p1] by simp
  with f2 have n2: "0 \<le> fl (fl (?q j) * 100)" by simp
  from f2 have "\<lfloor>fl (fl (?q i) * 100)\<rfloor> \<le> \<lfloor>fl (fl (?q j) * 100)\<rfloor>" by (rule floor_mono)
  with n1 n2 show ?thesis unfolding percent_def py_int_def by simp
qed

lemma percent_last:
  assumes "0 < total_files"
  shows "percent (total_files - 1) total_files = 100"
proof -
  from assms have q: "(of_nat (total_files - 1 + 1) / of_nat total_files :: rat) = 1" by simp
  have "percent (total_files - 1) total_files = py_int (fl (fl 1 * 100))"
    unfolding percent_def q ..
  also have "\<dots> = 100" by (simp add: fl_1 fl_100 py_int_def)
  finally show ?thesis .
qed
lemma progress_values_concat:
  "progress_values (concat (map g xs)) = concat (map (\<lambda>x. progress_values (g x)) xs)"
  by (induction xs) simp_all

lemma percents_enumerate:
  "concat (map (\<lambda>(i, f). [percent i total_files]) (enumerate index files)) =
   map (\<lambda>i. percent i total_files) [index..<index + length files]"
proof -
  have "concat (map (\<lambda>(i, f). [percent i total_files]) (enumerate index files)) =
        map (\<lambda>i. percent i total_files) (map fst (enumerate index files))"
    by (induction files arbitrary: index) simp_all
  then show ?thesis by (simp only: map_fst_enumerate)
qed

lemma progress_values_video_run:
  "progress_values (trace (video_run world quality files)) =
   map (\<lambda>i. percent i (length files)) [0..<length files]"
proof -
  have "progress_values (trace (video_loop world quality (length files) 0 files video_init)) =
        concat (map (\<lambda>(i, f). [percent i (length files)]) (enumerate 0 files))"
    by (simp add: video_loop_trace video_init_def progress_values_concat split_def)
  then show ?thesis
    by (simp add: video_run_def Let_def percents_enumerate)
qed

lemma progress_values_image_run:
  "progress_values (trace (image_run world output_dir quality files)) =
   map (\<lambda>i. percent i (length files)) [0..<length files]"
proof -
  have "progress_values (trace (image_loop world output_dir quality (length files) 0 files image_init)) =
        concat (map (\<lambda>(i, f). [percent i (length files)]) (enumerate 0 files))"
    by (simp add: image_loop_trace image_init_def progress_values_concat split_def)
  then show ?thesis
    by (simp add: image_run_def Let_def percents_enumerate)
qed

lemma percents_shift:
  "map (\<lambda>i. percent i n) [0..<n] =
   map (\<lambda>k. py_int (fl (fl (of_nat k / of_nat n) * 100))) [1..<n + 1]"
proof -
  have "[1..<n + 1] = map Suc [0..<n]" by (simp add: map_Suc_upt)
  then show ?thesis by (simp add: percent_def comp_def)
qed

lemma percents_sorted: "sorted (map (\<lambda>i. percent i n) [0..<n])"
proof (cases "n = 0")
  case True
  then show ?thesis by simp
next
  case False
  then have "\<And>i j. i \<le> j \<Longrightarrow> percent i n \<le> percent j n" by (simp add: percent_mono)
  then show ?thesis by (simp add: sorted_iff_nth_mono)
qed

lemma percents_last: "0 < n \<Longrightarrow> last (map (\<lambda>i. percent i n) [0..<n]) = 100"
  using percent_last [of n] by (simp add: last_map)

lemma percent_0_3: "percent 0 3 = 33"
proof -
  have s1: "fl (1 / 3) = 6004799503160661 / 18014398509481984"
  proof -
    have "fl (1 / 3) = of_int 6004799503160661 * 2 powi (- 2 - 52)"
      by (rule fl_eqI) simp_all
    then show ?thesis by simp
  qed
  have m: "(6004799503160661 / 18014398509481984 :: rat) * 100 =
           600479950316066100 / 18014398509481984"
    by simp
  have s2: "fl (600479950316066100 / 18014398509481984) = 2345624805922133 / 70368744177664"
  proof -
    have "fl (600479950316066100 / 18014398509481984) =
          of_int 4691249611844266 * 2 powi (5 - 52)"
      by (rule fl_eqI) simp_all
    then show ?thesis by simp
  qed
  have "percent 0 3 = py_int (fl (fl (1 / 3) * 100))" by (simp add: percent_def)
  also have "\<dots> = py_int (2345624805922133 / 70368744177664)" by (simp only: s1 m s2)
  also have "\<dots> = 33" by (simp add: py_int_def) linarith
  finally show ?thesis .
qed

lemma percent_1_3: "percent 1 3 = 66"
proof -
  have s1: "fl (2 / 3) = 6004799503160661 / 9007199254740992"
  proof -
    have "fl (2 / 3) = of_int 6004799503160661 * 2 powi (- 1 - 52)"
      by (rule fl_eqI) simp_all
    then show ?thesis by simp
  qed
  have m: "(6004799503160661 / 9007199254740992 :: rat) * 100 =
           600479950316066100 / 9007199254740992"
    by simp
  have s2: "fl (600479950316066100 / 9007199254740992) = 2345624805922133 / 35184372088832"
  proof -
    have "fl (600479950316066100 / 9007199254740992) =
          of_int 4691249611844266 * 2 powi (6 - 52)"
      by (rule fl_eqI) simp_all
    then show ?thesis by simp
  qed
  have "percent 1 3 = py_int (fl (fl (2 / 3) * 100))" by (simp add: percent_def)
  also have "\<dots> = py_int (2345624805922133 / 35184372088832)" by (simp only: s1 m s2)
  also have "\<dots> = 66" by (simp add: py_int_def) linarith
  finally show ?thesis .
qed

lemma percent_2_3: "percent 2 3 = 100"
  using percent_last [of 3] by simp

lemma percents_3: "map (\<lambda>i. percent i 3) [0..<3] = [33, 66, 100]"
proof -
  have "[0..<3] = [0, 1, 2::nat]" by (simp add: upt_rec)
  then show ?thesis using percent_0_3 percent_1_3 percent_2_3 by simp
qed

definition demo_videos :: "video_file_info list" where
  "demo_videos =
     [\<lparr>path = ''in.mp4'', output_path = ''in_compressed.mp4''\<rparr>,
      \<lparr>path = ''bad.mp4'', output_path = ''bad_compressed.mp4''\<rparr>,
      \<lparr>path = ''empty.mp4'', output_path = ''empty_compressed.mp4''\<rparr>]"

definition demo_image_env :: image_env where
  "demo_image_env =
     \<lparr>basename = (\<lambda>p. p), path_join = (\<lambda>d f. d @ ''/'' @ f),
      image_open = (\<lambda>p. if p = ''broken.png''
                          then Inl (Exn OtherException ''cannot identify image file'')
                          else Inr \<lparr>mode = (if p = ''logo.png'' then ''RGBA'' else ''RGB''),
                                    info = [], pixels = 7\<rparr>),
      convert = (\<lambda>img m. Inr (img\<lparr>mode := m, pixels := pixels img + 1\<rparr>)),
      save = (\<lambda>img p fmt q lossless. None)\<rparr>"

definition demo_images :: "image_file_info list" where
  "demo_images =
     [\<lparr>path = ''logo.png'', output_name = ''logo.webp''\<rparr>,
      \<lparr>path = ''broken.png'', output_name = ''broken.webp''\<rparr>]"

lemma percent_0_2: "percent 0 2 = 50"
proof -
  have s1: "fl (1 / 2) = 1 / 2"
  proof -
    have "fl (1 / 2) = of_int 4503599627370496 * 2 powi (- 1 - 52)"
      by (rule fl_eqI) simp_all
    then show ?thesis by simp
  qed
  have s2: "fl 50 = 50"
  proof -
    have "fl 50 = of_int 7036874417766400 * 2 powi (5 - 52)"
      by (rule fl_eqI) simp_all
    then show ?thesis by simp
  qed
  have m: "(1 / 2 :: rat) * 100 = 50" by simp
  have "percent 0 2 = py_int (fl (fl (1 / 2) * 100))" by (simp add: percent_def)
  also have "\<dots> = py_int 50" by (simp only: s1 m s2)
  also have "\<dots> = 50" by (simp add: py_int_def)
  finally show ?thesis .
qed

lemma percents_2: "map (\<lambda>i. percent i 2) [0..<2] = [50, 100]"
proof -
  have "[0..<2] = [0, 1::nat]" by (simp add: upt_rec)
  then show ?thesis using percent_0_2 percent_last [of 2] by simp
qed

lemma demo_videos_progress:
  "progress_values (trace (video_run (\<lambda>i. demo_video_env) ''medium'' demo_videos)) = [33, 66, 100]"
proof -
  have "length demo_videos = 3" by (simp add: demo_videos_def)
  then show ?thesis by (simp only: progress_values_video_run percents_3)
qed

lemma demo_images_progress:
  "progress_values (trace (image_run (\<lambda>i. demo_image_env) ''out'' 85 demo_images)) = [50, 100]"
proof -
  have "length demo_images = 2" by (simp add: demo_images_def)
  then show ?thesis by (simp only: progress_values_image_run percents_2)
qed

text \<open>
  C3 as stated fails: in a batch of three items the second progress signal carries 66,
  while \<open>round(100 * 2 / 3)\<close> is 67, whichever way halves are rounded.
\<close>

theorem progress_round_counterexample:
  "length demo_videos = 3 \<and>
   progress_values (trace (video_run (\<lambda>i. demo_video_env) ''medium'' demo_videos)) ! (2 - 1) = 66 \<and>
   round (100 * 2 / 3 :: rat) = 67 \<and> round_half_even (100 * 2 / 3) = 67"
proof -
  have "round (200 / 3 :: rat) = 67"
    unfolding round_def by (simp, linarith)
  then have r1: "round (100 * 2 / 3 :: rat) = 67" by simp
  have r2: "round_half_even (100 * 2 / 3) = 67"
    by (rule round_half_even_eqI) simp_all
  have l: "length demo_videos = 3" by (simp add: demo_videos_def)
  have p: "progress_values (trace (video_run (\<lambda>i. demo_video_env) ''medium'' demo_videos)) ! (2 - 1) = 66"
    unfolding demo_videos_progress by simp
  from l p r1 r2 show ?thesis by (intro conjI)
qed

text \<open>
  C3, amended. A run over \<open>N\<close> items emits exactly \<open>N\<close> progress signals, one per item
  in item order; the \<open>k\<close>-th carries \<open>int(k / N * 100)\<close>, the float quotient times 100
  truncated to an integer (not rounded to the nearest). The values never decrease and the
  last one is 100. This holds for the video and for the image worker.
\<close>

theorem progress_percentages:
  "progress_values (trace (video_run vworld quality vfiles)) =
     map (\<lambda>k. py_int (fl (fl (of_nat k / of_nat (length vfiles)) * 100))) [1..<length vfiles + 1] \<and>
   progress_values (trace (image_run iworld output_dir iquality ifiles)) =
     map (\<lambda>k. py_int (fl (fl (of_nat k / of_nat (length ifiles)) * 100))) [1..<length ifiles + 1] \<and>
   length (progress_values (trace (video_run vworld quality vfiles))) = length vfiles \<and>
   length (progress_values (trace (image_run iworld output_dir iquality ifiles))) = length ifiles \<and>
   sorted (progress_values (trace (video_run vworld quality vfiles))) \<and>
   sorted (progress_values (trace (image_run iworld output_dir iquality ifiles))) \<and>
   (vfiles \<noteq> [] \<longrightarrow> last (progress_values (trace (video_run vworld quality vfiles))) = 100) \<and>
   (ifiles \<noteq> [] \<longrightarrow>
      last (progress_values (trace (image_run iworld output_dir iquality ifiles))) = 100)"
proof -
  have v: "progress_values (trace (video_run vworld quality vfiles)) =
           map (\<lambda>i. percent i (length vfiles)) [0..<length vfiles]"
    by (rule progress_values_video_run)
  have i: "progress_values (trace (image_run iworld output_dir iquality ifiles)) =
           map (\<lambda>i. percent i (length ifiles)) [0..<length ifiles]"
    by (rule progress_values_image_run)
  have lv: "vfiles \<noteq> [] \<longrightarrow> last (map (\<lambda>i. percent i (length vfiles)) [0..<length vfiles]) = 100"
    using percents_last [of "length vfiles"] by simp
  have li: "ifiles \<noteq> [] \<longrightarrow> last (map (\<lambda>i. percent i (length ifiles)) [0..<length ifiles]) = 100"
    using percents_last [of "length ifiles"] by simp
  have len: "\<And>n. length (map (\<lambda>i. percent i n) [0..<n]) = n" by simp
  show ?thesis
    unfolding v i percents_shift [symmetric]
    using lv li percents_sorted [of "length vfiles"] percents_sorted [of "length ifiles"]
      len [of "length vfiles"] len [of "length ifiles"]
    by (intro conjI) (rule refl | assumption)+
qed

theorem progress_percentages_witness:
  "demo_videos \<noteq> [] \<and> demo_images \<noteq> [] \<and>
   progress_values (trace (video_run (\<lambda>i. demo_video_env) ''medium'' demo_videos)) = [33, 66, 100] \<and>
   last (progress_values (trace (video_run (\<lambda>i. demo_video_env) ''medium'' demo_videos))) = 100 \<and>
   progress_values (trace (image_run (\<lambda>i. demo_image_env) ''out'' 85 demo_images)) = [50, 100] \<and>
   last (progress_values (trace (image_run (\<lambda>i. demo_image_env) ''out'' 85 demo_images))) = 100"
proof -
  have nv: "demo_videos \<noteq> []" by (simp add: demo_videos_def)
  have ni: "demo_images \<noteq> []" by (simp add: demo_images_def)
  note t = progress_percentages [of "\<lambda>i. demo_video_env" "''medium''" demo_videos
      "\<lambda>i. demo_image_env" "''out''" 85 demo_images]
  from t nv have 1: "last (progress_values
      (trace (video_run (\<lambda>i. demo_video_env) ''medium'' demo_videos))) = 100"
    by blast
  from t ni have 2: "last (progress_values
      (trace (image_run (\<lambda>i. demo_image_env) ''out'' 85 demo_images))) = 100"
    by blast
  from nv ni 1 2 demo_videos_progress demo_images_progress show ?thesis by blast
qed

lemma video_item_failed:
  assumes "compress_video env quality inp outp = Inr (failed_result msg)"
    and "total_files \<noteq> 0"
  shows "results (video_item env quality total_files index \<lparr>path = inp, output_path = outp\<rparr> w) =
           AList.update inp (failed_result msg) (results w) \<and>
         failed_count (video_item env quality total_files index \<lparr>path = inp, output_path = outp\<rparr> w) =
           failed_count w + 1 \<and>
         compressed_count (video_item env quality total_files index \<lparr>path = inp, output_path = outp\<rparr> w) =
           compressed_count w \<and>
         trace (video_item env quality total_files index \<lparr>path = inp, output_path = outp\<rparr> w) =
           trace w @ [ProgressUpdated (percent index total_files) (msg_compressing @ basename env inp),
                      ResultStored inp (failed_result msg), ErrorOccurred msg]"
  using assms
  by (simp add: video_item_def py_truediv_index percent_def Let_def failed_result_def
        store_result_def emit_def)

text \<open>
  C10. When the encoder exits with code 0 and the input file has size 0, the division
  raises ZeroDivisionError inside the \<open>try\<close> of the video processor; the generic handler
  returns a result with \<open>success\<close> false whose error is the exception's message, and the
  run's iteration stores it as the item's result, counts a failure and goes on.
\<close>

theorem zero_input_size_is_failed:
  assumes "get_ffmpeg_exe env = Inr exe"
    and "popen_communicate env (video_cmd exe quality inp outp) = Inr (0, err)"
    and "getsize env inp = Inr 0" and "getsize env outp = Inr b"
  shows "py_truediv (int b) 0 = Inl (Exn ZeroDivisionError ''division by zero'') \<and>
         compress_video env quality inp outp =
           Inr (failed_result (str_exn (Exn ZeroDivisionError ''division by zero''))) \<and>
         \<not> success (failed_result ''division by zero'') \<and>
         error (failed_result ''division by zero'') = Some ''division by zero'' \<and>
         (total_files \<noteq> 0 \<longrightarrow>
            results (video_item env quality total_files index \<lparr>path = inp, output_path = outp\<rparr> w) =
              AList.update inp (failed_result ''division by zero'') (results w) \<and>
            failed_count (video_item env quality total_files index \<lparr>path = inp, output_path = outp\<rparr> w) =
              failed_count w + 1 \<and>
            trace (video_item env quality total_files index \<lparr>path = inp, output_path = outp\<rparr> w) =
              trace w @ [ProgressUpdated (percent index total_files) (msg_compressing @ basename env inp),
                         ResultStored inp (failed_result ''division by zero''),
                         ErrorOccurred ''division by zero''])"
proof -
  have c: "compress_video env quality inp outp = Inr (failed_result ''division by zero'')"
    by (rule compress_video_zero_input [OF assms])
  have d: "py_truediv (int b) 0 = Inl (Exn ZeroDivisionError ''division by zero'')"
    by (simp add: py_truediv_def)
  have f: "\<not> success (failed_result ''division by zero'') \<and>
           error (failed_result ''division by zero'') = Some ''division by zero''"
    by (simp add: failed_result_def)
  from c d f video_item_failed [OF c, of total_files index w] show ?thesis
    by simp
qed

theorem zero_input_size_is_failed_witness:
  "compress_video demo_video_env ''medium'' ''empty.mp4'' ''empty_compressed.mp4'' =
     Inr (failed_result ''division by zero'') \<and>
   (3::nat) \<noteq> 0 \<and>
   results (video_item demo_video_env ''medium'' 3 2
             \<lparr>path = ''empty.mp4'', output_path = ''empty_compressed.mp4''\<rparr> video_init) =
     [(''empty.mp4'', failed_result ''division by zero'')] \<and>
   failed_count (video_item demo_video_env ''medium'' 3 2
             \<lparr>path = ''empty.mp4'', output_path = ''empty_compressed.mp4''\<rparr> video_init) = 1"
proof -
  have h1: "get_ffmpeg_exe demo_video_env = Inr ''ffmpeg''"
    by (simp add: demo_video_env_def)
  have h2: "popen_communicate demo_video_env
              (video_cmd ''ffmpeg'' ''medium'' ''empty.mp4'' ''empty_compressed.mp4'') = Inr (0, [])"
    by (simp add: demo_video_env_def demo_video_cmd_input)
  have h3: "getsize demo_video_env ''empty.mp4'' = Inr 0"
    by (simp add: demo_video_env_def)
  have h4: "getsize demo_video_env ''empty_compressed.mp4'' = Inr 1200"
    by (simp add: demo_video_env_def)
  have h5: "(3::nat) \<noteq> 0" by simp
  note t = zero_input_size_is_failed [OF h1 h2 h3 h4, of 3 2 video_init]
  from t h5 show ?thesis by (simp add: video_init_def)
qed

definition dup_videos :: "video_file_info list" where
  "dup_videos =
     [\<lparr>path = ''in.mp4'', output_path = ''in_compressed.mp4''\<rparr>,
      \<lparr>path = ''in.mp4'', output_path = ''in_1_compressed.mp4''\<rparr>]"

lemma fold_update_enumerate:
  "fold (\<lambda>(i, f). AList.update (key f) (val i f)) xs al =
   fold (\<lambda>(k, v). AList.update k v) (map (\<lambda>(i, f). (key f, val i f)) xs) al"
  by (induction xs arbitrary: al) (simp_all add: split_def)

lemma keys_enumerate:
  "map fst (map (\<lambda>(i, f). (key f, val i f)) (enumerate n xs)) = map key xs"
  by (induction xs arbitrary: n) simp_all

lemma video_run_results:
  "results (video_run world quality files) =
   fold (\<lambda>(k, v). AList.update k v)
     (map (\<lambda>(i, f). (path f, video_outcome (world i) quality f)) (enumerate 0 files)) []"
  by (simp add: video_run_def Let_def video_loop_results video_init_def
        fold_update_enumerate [symmetric])

lemma image_run_results:
  "results (image_run world output_dir quality files) =
   fold (\<lambda>(k, v). AList.update k v)
     (map (\<lambda>(i, f). (path f, image_outcome (world i) output_dir quality f)) (enumerate 0 files)) []"
  by (simp add: image_run_def Let_def image_loop_results image_init_def
        fold_update_enumerate [symmetric])

lemma video_run_results_distinct:
  assumes "distinct (map path files)"
  shows "results (video_run world quality files) =
         map (\<lambda>(i, f). (path f, video_outcome (world i) quality f)) (enumerate 0 files)"
proof -
  let ?kvs = "map (\<lambda>(i, f). (path f, video_outcome (world i) quality f)) (enumerate 0 files)"
  have "distinct (map fst ?kvs)" using assms by (simp only: keys_enumerate)
  then have "fold (\<lambda>(k, v). AList.update k v) ?kvs [] = [] @ ?kvs"
    by (rule fold_update_fresh) simp
  then show ?thesis by (simp only: video_run_results append_Nil)
qed

lemma image_run_results_distinct:
  assumes "distinct (map path files)"
  shows "results (image_run world output_dir quality files) =
         map (\<lambda>(i, f). (path f, image_outcome (world i) output_dir quality f)) (enumerate 0 files)"
proof -
  let ?kvs = "map (\<lambda>(i, f). (path f, image_outcome (world i) output_dir quality f))
                (enumerate 0 files)"
  have "distinct (map fst ?kvs)" using assms by (simp only: keys_enumerate)
  then have "fold (\<lambda>(k, v). AList.update k v) ?kvs [] = [] @ ?kvs"
    by (rule fold_update_fresh) simp
  then show ?thesis by (simp only: image_run_results append_Nil)
qed

lemma map_of_enumerate:
  assumes "distinct (map key xs)" and "i < length xs"
  shows "map_of (map (\<lambda>(i, f). (key f, val i f)) (enumerate 0 xs)) (key (xs ! i)) =
         Some (val i (xs ! i))"
proof -
  let ?kvs = "map (\<lambda>(i, f). (key f, val i f)) (enumerate 0 xs)"
  have d: "distinct (map fst ?kvs)" using assms(1) by (simp only: keys_enumerate)
  have "(i, xs ! i) \<in> set (enumerate 0 xs)"
    using assms(2) by (simp add: in_set_enumerate_eq)
  then have "(key (xs ! i), val i (xs ! i)) \<in> set ?kvs" by force
  with d show ?thesis by (simp only: map_of_eq_Some_iff)
qed

lemma last_trace_video_run:
  "last (trace (video_run world quality files)) =
   CompressionComplete (results (video_run world quality files))"
  by (simp add: video_run_def Let_def)

lemma last_trace_image_run:
  "last (trace (image_run world output_dir quality files)) =
   ConversionComplete (results (image_run world output_dir quality files))"
  by (simp add: image_run_def Let_def)

lemma video_outcome_fault:
  "compress_video env quality (path f) (output_path f) = Inl e \<Longrightarrow>
   video_outcome env quality f = failed_result (str_exn e)"
  by (simp add: video_outcome_def)

lemma image_outcome_fault:
  "image_fault env output_dir quality f = Some e \<Longrightarrow>
   image_outcome env output_dir quality f = failed_result (str_exn e)"
  by (simp add: image_outcome_def)

lemma dup_videos_results:
  "length (results (video_run (\<lambda>i. demo_video_env) ''medium'' dup_videos)) = 1"
  by (simp add: video_run_results dup_videos_def enumerate_simps)

definition demo_world :: "nat \<Rightarrow> video_env" where
  \<comment> \<open>While the second item is processed the encoder cannot be resolved.\<close>
  "demo_world i =
     (if i = 1
      then demo_video_env\<lparr>get_ffmpeg_exe := Inl (Exn OtherException ''No ffmpeg exe could be found'')\<rparr>
      else demo_video_env)"

text \<open>
  C1 as stated fails for a batch that names one source path twice: the result map is
  keyed by path, so two items leave one entry.
\<close>

theorem batch_result_duplicate_counterexample:
  "length dup_videos = 2 \<and>
   length (results (video_run (\<lambda>i. demo_video_env) ''medium'' dup_videos)) = 1"
  using dup_videos_results by (simp add: dup_videos_def)

text \<open>
  C1, amended. For every batch of \<open>N\<close> items with pairwise distinct source paths (the
  batch builder never adds a path twice), video or image, the run is a total function
  that performs all \<open>N\<close> iterations; the result map it emits with the completion signal
  has exactly one entry per item, in item order, keyed by the item's source path; the
  entry of an item is determined by that item and its environment alone, and when the
  processing of the item raises (\<open>compress_video\<close> raising, or \<open>Image.open\<close>, \<open>convert\<close>
  or \<open>save\<close> raising) the entry is the Failed result with the exception's message.
\<close>

theorem batch_result_complete:
  assumes "distinct (map path vfiles)" and "distinct (map path ifiles)"
  shows "results (video_run vworld quality vfiles) =
           map (\<lambda>(i, f). (path f, video_outcome (vworld i) quality f)) (enumerate 0 vfiles) \<and>
         map fst (results (video_run vworld quality vfiles)) = map path vfiles \<and>
         length (results (video_run vworld quality vfiles)) = length vfiles \<and>
         length (progress_values (trace (video_run vworld quality vfiles))) = length vfiles \<and>
         last (trace (video_run vworld quality vfiles)) =
           CompressionComplete (results (video_run vworld quality vfiles)) \<and>
         (\<forall>i<length vfiles.
            map_of (results (video_run vworld quality vfiles)) (path (vfiles ! i)) =
              Some (video_outcome (vworld i) quality (vfiles ! i))) \<and>
         (\<forall>i<length vfiles. \<forall>e.
            compress_video (vworld i) quality (path (vfiles ! i)) (output_path (vfiles ! i)) = Inl e \<longrightarrow>
            map_of (results (video_run vworld quality vfiles)) (path (vfiles ! i)) =
              Some (failed_result (str_exn e))) \<and>
         results (image_run iworld output_dir iquality ifiles) =
           map (\<lambda>(i, f). (path f, image_outcome (iworld i) output_dir iquality f))
             (enumerate 0 ifiles) \<and>
         map fst (results (image_run iworld output_dir iquality ifiles)) = map path ifiles \<and>
         length (results (image_run iworld output_dir iquality ifiles)) = length ifiles \<and>
         length (progress_values (trace (image_run iworld output_dir iquality ifiles))) =
           length ifiles \<and>
         last (trace (image_run iworld output_dir iquality ifiles)) =
           ConversionComplete (results (image_run iworld output_dir iquality ifiles)) \<and>
         (\<forall>i<length ifiles.
            map_of (results (image_run iworld output_dir iquality ifiles)) (path (ifiles ! i)) =
              Some (image_outcome (iworld i) output_dir iquality (ifiles ! i))) \<and>
         (\<forall>i<length ifiles. \<forall>e.
            image_fault (iworld i) output_dir iquality (ifiles ! i) = Some e \<longrightarrow>
            map_of (results (image_run iworld output_dir iquality ifiles)) (path (ifiles ! i)) =
              Some (failed_result (str_exn e)))"
proof -
  let ?vr = "results (video_run vworld quality vfiles)"
  let ?ir = "results (image_run iworld output_dir iquality ifiles)"
  have v: "?vr = map (\<lambda>(i, f). (path f, video_outcome (vworld i) quality f)) (enumerate 0 vfiles)"
    by (rule video_run_results_distinct [OF assms(1)])
  have i: "?ir = map (\<lambda>(i, f). (path f, image_outcome (iworld i) output_dir iquality f))
                   (enumerate 0 ifiles)"
    by (rule image_run_results_distinct [OF assms(2)])
  have vk: "map fst ?vr = map path vfiles" unfolding v by (rule keys_enumerate)
  have ik: "map fst ?ir = map path ifiles" unfolding i by (rule keys_enumerate)
  have vl: "length ?vr = length vfiles" unfolding v by simp
  have il: "length ?ir = length ifiles" unfolding i by simp
  have vp: "length (progress_values (trace (video_run vworld quality vfiles))) = length vfiles"
    by (simp add: progress_values_video_run)
  have ip: "length (progress_values (trace (image_run iworld output_dir iquality ifiles))) =
            length ifiles"
    by (simp add: progress_values_image_run)
  have vm: "\<forall>i<length vfiles. map_of ?vr (path (vfiles ! i)) =
              Some (video_outcome (vworld i) quality (vfiles ! i))"
  proof (intro allI impI)
    fix i assume "i < length vfiles"
    then show "map_of ?vr (path (vfiles ! i)) = Some (video_outcome (vworld i) quality (vfiles ! i))"
      unfolding v
      by (rule map_of_enumerate [where key = path
            and val = "\<lambda>i f. video_outcome (vworld i) quality f", OF assms(1)])
  qed
  have im: "\<forall>i<length ifiles. map_of ?ir (path (ifiles ! i)) =
              Some (image_outcome (iworld i) output_dir iquality (ifiles ! i))"
  proof (intro allI impI)
    fix i assume "i < length ifiles"
    then show "map_of ?ir (path (ifiles ! i)) =
                 Some (image_outcome (iworld i) output_dir iquality (ifiles ! i))"
      unfolding i
      by (rule map_of_enumerate [where key = path
            and val = "\<lambda>i f. image_outcome (iworld i) output_dir iquality f", OF assms(2)])
  qed
  have vf: "\<forall>i<length vfiles. \<forall>e.
            compress_video (vworld i) quality (path (vfiles ! i)) (output_path (vfiles ! i)) = Inl e \<longrightarrow>
            map_of ?vr (path (vfiles ! i)) = Some (failed_result (str_exn e))"
  proof (intro allI impI)
    fix i e assume l: "i < length vfiles"
      and f: "compress_video (vworld i) quality (path (vfiles ! i)) (output_path (vfiles ! i)) = Inl e"
    from vm l have "map_of ?vr (path (vfiles ! i)) =
                      Some (video_outcome (vworld i) quality (vfiles ! i))"
      by (simp only:)
    then show "map_of ?vr (path (vfiles ! i)) = Some (failed_result (str_exn e))"
      by (simp only: video_outcome_fault [OF f])
  qed
  have "if": "\<forall>i<length ifiles. \<forall>e.
            image_fault (iworld i) output_dir iquality (ifiles ! i) = Some e \<longrightarrow>
            map_of ?ir (path (ifiles ! i)) = Some (failed_result (str_exn e))"
  proof (intro allI impI)
    fix i e assume l: "i < length ifiles"
      and f: "image_fault (iworld i) output_dir iquality (ifiles ! i) = Some e"
    from im l have "map_of ?ir (path (ifiles ! i)) =
                      Some (image_outcome (iworld i) output_dir iquality (ifiles ! i))"
      by (simp only:)
    then show "map_of ?ir (path (ifiles ! i)) = Some (failed_result (str_exn e))"
      by (simp only: image_outcome_fault [OF f])
  qed
  from v vk vl vp last_trace_video_run [of vworld quality vfiles] vm vf
    i ik il ip last_trace_image_run [of iworld output_dir iquality ifiles] im "if"
  show ?thesis by (intro conjI)
qed
lemma demo_outcome_in:
  "video_outcome (demo_world 0) ''medium'' \<lparr>path = ''in.mp4'', output_path = ''in_compressed.mp4''\<rparr> =
     \<lparr>success = True, output = Some ''in_compressed.mp4'', input_size = Some 1000,
      output_size = Some 1200, compression_ratio = Some (- 20), error = None\<rparr>"
proof -
  have w: "demo_world 0 = demo_video_env" by (simp add: demo_world_def)
  have q: "(of_nat 1200 / of_nat 1000 :: rat) = 6 / 5" by simp
  have "compress_video demo_video_env ''medium'' ''in.mp4'' ''in_compressed.mp4'' =
          Inr \<lparr>success = True, output = Some ''in_compressed.mp4'', input_size = Some 1000,
               output_size = Some 1200,
               compression_ratio =
                 Some (py_round2 (fl (fl (1 - fl (of_nat 1200 / of_nat 1000)) * 100))),
               error = None\<rparr>"
    by (rule compress_video_success [where exe = "''ffmpeg''" and err = "[]"])
       (simp_all add: demo_video_env_def demo_video_cmd_input)
  then show ?thesis
    unfolding w q ratio_1000_1200 by (simp add: video_outcome_def)
qed

lemma demo_outcome_bad:
  "video_outcome (demo_world 1) ''medium'' \<lparr>path = ''bad.mp4'', output_path = ''bad_compressed.mp4''\<rparr> =
     failed_result ''No ffmpeg exe could be found''"
proof -
  have "get_ffmpeg_exe (demo_world 1) = Inl (Exn OtherException ''No ffmpeg exe could be found'')"
    by (simp add: demo_world_def)
  then have "compress_video (demo_world 1) ''medium'' ''bad.mp4'' ''bad_compressed.mp4'' =
             Inl (Exn OtherException ''No ffmpeg exe could be found'')"
    by (simp only: compress_video_raises_iff)
  then show ?thesis by (simp add: video_outcome_def)
qed

lemma demo_outcome_empty:
  "video_outcome (demo_world 2) ''medium''
     \<lparr>path = ''empty.mp4'', output_path = ''empty_compressed.mp4''\<rparr> =
     failed_result ''division by zero''"
proof -
  have w: "demo_world 2 = demo_video_env" by (simp add: demo_world_def)
  have "compress_video demo_video_env ''medium'' ''empty.mp4'' ''empty_compressed.mp4'' =
          Inr (failed_result ''division by zero'')"
    by (rule compress_video_zero_input [where exe = "''ffmpeg''" and err = "[]" and b = 1200])
       (simp_all add: demo_video_env_def demo_video_cmd_input)
  then show ?thesis unfolding w by (simp add: video_outcome_def)
qed

lemma demo_enumerate_videos:
  "enumerate 0 demo_videos =
     [(0, \<lparr>path = ''in.mp4'', output_path = ''in_compressed.mp4''\<rparr>),
      (1, \<lparr>path = ''bad.mp4'', output_path = ''bad_compressed.mp4''\<rparr>),
      (2, \<lparr>path = ''empty.mp4'', output_path = ''empty_compressed.mp4''\<rparr>)]"
  by (simp add: demo_videos_def)

lemma demo_fault_broken:
  "image_fault demo_image_env ''out'' 85 \<lparr>path = ''broken.png'', output_name = ''broken.webp''\<rparr> =
     Some (Exn OtherException ''cannot identify image file'')"
  by (simp add: image_fault_def image_prepare_def demo_image_env_def)

theorem batch_result_complete_witness:
  "distinct (map path demo_videos) \<and> distinct (map path demo_images) \<and>
   results (video_run demo_world ''medium'' demo_videos) =
     [(''in.mp4'', \<lparr>success = True, output = Some ''in_compressed.mp4'', input_size = Some 1000,
                    output_size = Some 1200, compression_ratio = Some (- 20), error = None\<rparr>),
      (''bad.mp4'', failed_result ''No ffmpeg exe could be found''),
      (''empty.mp4'', failed_result ''division by zero'')] \<and>
   (1::nat) < length demo_images \<and>
   map_of (results (image_run (\<lambda>i. demo_image_env) ''out'' 85 demo_images)) ''broken.png'' =
     Some (failed_result ''cannot identify image file'') \<and>
   length (results (image_run (\<lambda>i. demo_image_env) ''out'' 85 demo_images)) = 2"
proof -
  have dv: "distinct (map path demo_videos)" by (simp add: demo_videos_def)
  have di: "distinct (map path demo_images)" by (simp add: demo_images_def)
  note t = batch_result_complete [OF dv di, of demo_world "''medium''" "\<lambda>i. demo_image_env"
      "''out''" 85]
  have li: "(1::nat) < length demo_images" by (simp add: demo_images_def)
  have n1: "demo_images ! 1 = \<lparr>path = ''broken.png'', output_name = ''broken.webp''\<rparr>"
    by (simp add: demo_images_def)
  from t have "results (video_run demo_world ''medium'' demo_videos) =
      map (\<lambda>(i, f). (path f, video_outcome (demo_world i) ''medium'' f)) (enumerate 0 demo_videos)"
    by (rule conjunct1)
  then have 1: "results (video_run demo_world ''medium'' demo_videos) =
     [(''in.mp4'', \<lparr>success = True, output = Some ''in_compressed.mp4'', input_size = Some 1000,
                    output_size = Some 1200, compression_ratio = Some (- 20), error = None\<rparr>),
      (''bad.mp4'', failed_result ''No ffmpeg exe could be found''),
      (''empty.mp4'', failed_result ''division by zero'')]"
    unfolding demo_enumerate_videos
    using demo_outcome_in demo_outcome_bad demo_outcome_empty by simp
  from t have a: "\<forall>i<length demo_images. \<forall>e.
      image_fault demo_image_env ''out'' 85 (demo_images ! i) = Some e \<longrightarrow>
      map_of (results (image_run (\<lambda>i. demo_image_env) ''out'' 85 demo_images))
        (path (demo_images ! i)) = Some (failed_result (str_exn e))"
    by (elim conjE) assumption
  have f1: "image_fault demo_image_env ''out'' 85 (demo_images ! 1) =
              Some (Exn OtherException ''cannot identify image file'')"
    unfolding n1 by (rule demo_fault_broken)
  from a [rule_format, OF li f1]
  have 2: "map_of (results (image_run (\<lambda>i. demo_image_env) ''out'' 85 demo_images))
      ''broken.png'' = Some (failed_result ''cannot identify image file'')"
    unfolding n1 by simp
  from t have "length (results (image_run (\<lambda>i. demo_image_env) ''out'' 85 demo_images)) =
      length demo_images"
    by (elim conjE) assumption
  then have 3: "length (results (image_run (\<lambda>i. demo_image_env) ''out'' 85 demo_images)) = 2"
    by (simp add: demo_images_def)
  from dv di 1 li 2 3 show ?thesis by (intro conjI)
qed

lemma video_run_trace:
  "trace (video_run world quality files) =
   concat (map (\<lambda>(i, f). video_block (world i) quality (length files) i f) (enumerate 0 files))
   @ [CompressionComplete (results (video_run world quality files))]"
  by (simp add: video_run_def Let_def video_loop_trace video_init_def)

lemma image_run_trace:
  "trace (image_run world output_dir quality files) =
   concat (map (\<lambda>(i, f). image_block (world i) output_dir quality (length files) i f)
             (enumerate 0 files))
   @ [ConversionComplete (results (image_run world output_dir quality files))]"
  by (simp add: image_run_def Let_def image_loop_trace image_init_def)

lemma video_block_shape:
  "\<exists>p s r notices.
     video_block env quality total_files index f =
       ProgressUpdated p s # ResultStored (path f) r # notices \<and>
     (\<forall>e \<in> set notices. \<exists>m. e = ErrorOccurred m)"
  by (auto simp: video_block_def video_notices_def split: sum.splits)

lemma image_block_shape:
  "\<exists>p s saves r notices.
     image_block env output_dir quality total_files index f =
       ProgressUpdated p s # saves @ ResultStored (path f) r # notices \<and>
     (\<forall>e \<in> set saves. \<exists>img pth fmt q l. e = ImageSaved img pth fmt q l) \<and>
     (\<forall>e \<in> set notices. \<exists>m. e = ErrorOccurred m)"
proof -
  let ?saves = "image_saves env output_dir quality f"
  let ?notices = "image_notices env output_dir quality f"
  have b: "image_block env output_dir quality total_files index f =
        ProgressUpdated (percent index total_files) (msg_converting @ basename env (path f)) #
        ?saves @ ResultStored (path f) (image_outcome env output_dir quality f) # ?notices"
    by (simp add: image_block_def)
  have s: "\<forall>e \<in> set ?saves. \<exists>img pth fmt q l. e = ImageSaved img pth fmt q l"
    by (auto simp: image_saves_def split: sum.splits)
  have n: "\<forall>e \<in> set ?notices. \<exists>m. e = ErrorOccurred m"
    by (auto simp: image_notices_def split: option.splits)
  from b s n show ?thesis by blast
qed

lemma nth_blocks:
  assumes "i < length files"
  shows "map (\<lambda>(i, f). blk i f) (enumerate 0 files) ! i = blk i (files ! i)"
  using assms by (simp add: nth_enumerate_eq)

lemma demo_outcome_single:
  "video_outcome demo_video_env ''medium'' \<lparr>path = ''in.mp4'', output_path = ''in_compressed.mp4''\<rparr> =
     \<lparr>success = True, output = Some ''in_compressed.mp4'', input_size = Some 1000,
      output_size = Some 1200, compression_ratio = Some (- 20), error = None\<rparr>"
  using demo_outcome_in by (simp add: demo_world_def)

lemma demo_notices_single:
  "video_notices demo_video_env ''medium'' \<lparr>path = ''in.mp4'', output_path = ''in_compressed.mp4''\<rparr> = []"
proof -
  have "compress_video demo_video_env ''medium'' ''in.mp4'' ''in_compressed.mp4'' =
          Inr \<lparr>success = True, output = Some ''in_compressed.mp4'', input_size = Some 1000,
               output_size = Some 1200,
               compression_ratio =
                 Some (py_round2 (fl (fl (1 - fl (of_nat 1200 / of_nat 1000)) * 100))),
               error = None\<rparr>"
    by (rule compress_video_success [where exe = "''ffmpeg''" and err = "[]"])
       (simp_all add: demo_video_env_def demo_video_cmd_input)
  then show ?thesis by (simp add: video_notices_def)
qed

text \<open>
  C2 as stated fails: in a run over one item the progress signal is the first event of
  the trace; the item's result, its terminal status, is stored after it, not before.
\<close>

theorem progress_before_status_counterexample:
  "trace (video_run (\<lambda>i. demo_video_env) ''medium''
            [\<lparr>path = ''in.mp4'', output_path = ''in_compressed.mp4''\<rparr>]) =
     [ProgressUpdated 100 (msg_compressing @ ''in.mp4''),
      ResultStored ''in.mp4''
        \<lparr>success = True, output = Some ''in_compressed.mp4'', input_size = Some 1000,
         output_size = Some 1200, compression_ratio = Some (- 20), error = None\<rparr>,
      CompressionComplete
        [(''in.mp4'',
          \<lparr>success = True, output = Some ''in_compressed.mp4'', input_size = Some 1000,
           output_size = Some 1200, compression_ratio = Some (- 20), error = None\<rparr>)]]"
proof -
  have p: "percent 0 (Suc 0) = 100" using percent_last [of 1] by simp
  have b: "basename demo_video_env ''in.mp4'' = ''in.mp4''" by (simp add: demo_video_env_def)
  show ?thesis
    by (simp add: video_run_trace video_run_results video_block_def demo_outcome_single
          demo_notices_single p b)
qed

text \<open>
  C2, amended. The trace of a run is one block of events per item, in item order,
  followed by the completion signal, which is the last event and occurs once. The block
  of an item starts with its only progress signal, which therefore comes strictly before
  the item's terminal status is recorded; then, for an image, the call of \<open>img.save\<close>
  if it is reached; then the item's result is stored; then, for a failed item, the error
  signal. Hence progress signals come in item order, one per item, and the completion
  signal comes after the last progress signal and after every item has its terminal
  status.
\<close>

theorem event_order:
  "(\<exists>blocks.
      trace (video_run vworld quality vfiles) =
        concat blocks @ [CompressionComplete (results (video_run vworld quality vfiles))] \<and>
      length blocks = length vfiles \<and>
      (\<forall>i<length vfiles. \<exists>p s r notices.
         blocks ! i = ProgressUpdated p s # ResultStored (path (vfiles ! i)) r # notices \<and>
         (\<forall>e \<in> set notices. \<exists>m. e = ErrorOccurred m))) \<and>
   (\<exists>blocks.
      trace (image_run iworld output_dir iquality ifiles) =
        concat blocks @ [ConversionComplete (results (image_run iworld output_dir iquality ifiles))] \<and>
      length blocks = length ifiles \<and>
      (\<forall>i<length ifiles. \<exists>p s saves r notices.
         blocks ! i = ProgressUpdated p s # saves @ ResultStored (path (ifiles ! i)) r # notices \<and>
         (\<forall>e \<in> set saves. \<exists>img pth fmt q l. e = ImageSaved img pth fmt q l) \<and>
         (\<forall>e \<in> set notices. \<exists>m. e = ErrorOccurred m)))"
proof (rule conjI)
  let ?vb = "map (\<lambda>(i, f). video_block (vworld i) quality (length vfiles) i f) (enumerate 0 vfiles)"
  have t: "trace (video_run vworld quality vfiles) =
        concat ?vb @ [CompressionComplete (results (video_run vworld quality vfiles))]"
    by (rule video_run_trace)
  have l: "length ?vb = length vfiles" by simp
  have s: "\<forall>i<length vfiles. \<exists>p s r notices.
         ?vb ! i = ProgressUpdated p s # ResultStored (path (vfiles ! i)) r # notices \<and>
         (\<forall>e \<in> set notices. \<exists>m. e = ErrorOccurred m)"
  proof (intro allI impI)
    fix i assume i: "i < length vfiles"
    have "?vb ! i = video_block (vworld i) quality (length vfiles) i (vfiles ! i)"
      by (rule nth_blocks [OF i])
    then show "\<exists>p s r notices.
         ?vb ! i = ProgressUpdated p s # ResultStored (path (vfiles ! i)) r # notices \<and>
         (\<forall>e \<in> set notices. \<exists>m. e = ErrorOccurred m)"
      using video_block_shape [of "vworld i" quality "length vfiles" i "vfiles ! i"]
      by (simp only:)
  qed
  from t l s show "\<exists>blocks.
      trace (video_run vworld quality vfiles) =
        concat blocks @ [CompressionComplete (results (video_run vworld quality vfiles))] \<and>
      length blocks = length vfiles \<and>
      (\<forall>i<length vfiles. \<exists>p s r notices.
         blocks ! i = ProgressUpdated p s # ResultStored (path (vfiles ! i)) r # notices \<and>
         (\<forall>e \<in> set notices. \<exists>m. e = ErrorOccurred m))"
    by (intro exI [of _ ?vb] conjI)
next
  let ?ib = "map (\<lambda>(i, f). image_block (iworld i) output_dir iquality (length ifiles) i f)
               (enumerate 0 ifiles)"
  have t: "trace (image_run iworld output_dir iquality ifiles) =
        concat ?ib @ [ConversionComplete (results (image_run iworld output_dir iquality ifiles))]"
    by (rule image_run_trace)
  have l: "length ?ib = length ifiles" by simp
  have s: "\<forall>i<length ifiles. \<exists>p s saves r notices.
         ?ib ! i = ProgressUpdated p s # saves @ ResultStored (path (ifiles ! i)) r # notices \<and>
         (\<forall>e \<in> set saves. \<exists>img pth fmt q l. e = ImageSaved img pth fmt q l) \<and>
         (\<forall>e \<in> set notices. \<exists>m. e = ErrorOccurred m)"
  proof (intro allI impI)
    fix i assume i: "i < length ifiles"
    have "?ib ! i = image_block (iworld i) output_dir iquality (length ifiles) i (ifiles ! i)"
      by (rule nth_blocks [OF i])
    then show "\<exists>p s saves r notices.
         ?ib ! i = ProgressUpdated p s # saves @ ResultStored (path (ifiles ! i)) r # notices \<and>
         (\<forall>e \<in> set saves. \<exists>img pth fmt q l. e = ImageSaved img pth fmt q l) \<and>
         (\<forall>e \<in> set notices. \<exists>m. e = ErrorOccurred m)"
      using image_block_shape [of "iworld i" output_dir iquality "length ifiles" i "ifiles ! i"]
      by (simp only:)
  qed
  from t l s show "\<exists>blocks.
      trace (image_run iworld output_dir iquality ifiles) =
        concat blocks @ [ConversionComplete (results (image_run iworld output_dir iquality ifiles))] \<and>
      length blocks = length ifiles \<and>
      (\<forall>i<length ifiles. \<exists>p s saves r notices.
         blocks ! i = ProgressUpdated p s # saves @ ResultStored (path (ifiles ! i)) r # notices \<and>
         (\<forall>e \<in> set saves. \<exists>img pth fmt q l. e = ImageSaved img pth fmt q l) \<and>
         (\<forall>e \<in> set notices. \<exists>m. e = ErrorOccurred m))"
    by (intro exI [of _ ?ib] conjI)
qed
lemma demo_block_in:
  "video_block (demo_world 0) ''medium'' 3 0 \<lparr>path = ''in.mp4'', output_path = ''in_compressed.mp4''\<rparr> =
     [ProgressUpdated 33 (msg_compressing @ ''in.mp4''),
      ResultStored ''in.mp4''
        \<lparr>success = True, output = Some ''in_compressed.mp4'', input_size = Some 1000,
         output_size = Some 1200, compression_ratio = Some (- 20), error = None\<rparr>]"
proof -
  have w: "demo_world 0 = demo_video_env" by (simp add: demo_world_def)
  have b: "basename demo_video_env ''in.mp4'' = ''in.mp4''" by (simp add: demo_video_env_def)
  show ?thesis
    unfolding w
    by (simp add: video_block_def demo_outcome_single demo_notices_single percent_0_3 b)
qed

lemma demo_block_bad:
  "video_block (demo_world 1) ''medium'' 3 1 \<lparr>path = ''bad.mp4'', output_path = ''bad_compressed.mp4''\<rparr> =
     [ProgressUpdated 66 (msg_compressing @ ''bad.mp4''),
      ResultStored ''bad.mp4'' (failed_result ''No ffmpeg exe could be found''),
      ErrorOccurred (msg_compress_failed @ ''bad.mp4'' @ '': '' @ ''No ffmpeg exe could be found'')]"
proof -
  let ?env = "demo_video_env\<lparr>get_ffmpeg_exe :=
                Inl (Exn OtherException ''No ffmpeg exe could be found'')\<rparr>"
  have w: "demo_world 1 = ?env" by (simp add: demo_world_def)
  have "get_ffmpeg_exe ?env = Inl (Exn OtherException ''No ffmpeg exe could be found'')"
    by simp
  then have c: "compress_video ?env ''medium'' ''bad.mp4'' ''bad_compressed.mp4'' =
             Inl (Exn OtherException ''No ffmpeg exe could be found'')"
    by (simp only: compress_video_raises_iff)
  have b: "basename demo_video_env ''bad.mp4'' = ''bad.mp4''"
    by (simp add: demo_video_env_def)
  have p: "percent (Suc 0) 3 = 66" using percent_1_3 by simp
  show ?thesis
    unfolding w
    by (simp add: video_block_def video_outcome_def video_notices_def c b p)
qed

lemma demo_block_empty:
  "video_block (demo_world 2) ''medium'' 3 2
     \<lparr>path = ''empty.mp4'', output_path = ''empty_compressed.mp4''\<rparr> =
     [ProgressUpdated 100 (msg_compressing @ ''empty.mp4''),
      ResultStored ''empty.mp4'' (failed_result ''division by zero''),
      ErrorOccurred ''division by zero'']"
proof -
  have w: "demo_world 2 = demo_video_env" by (simp add: demo_world_def)
  have c: "compress_video demo_video_env ''medium'' ''empty.mp4'' ''empty_compressed.mp4'' =
          Inr (failed_result ''division by zero'')"
    by (rule compress_video_zero_input [where exe = "''ffmpeg''" and err = "[]" and b = 1200])
       (simp_all add: demo_video_env_def demo_video_cmd_input)
  have b: "basename demo_video_env ''empty.mp4'' = ''empty.mp4''" by (simp add: demo_video_env_def)
  show ?thesis
    unfolding w
    by (simp add: video_block_def video_outcome_def video_notices_def c b percent_2_3
          failed_result_def)
qed

lemma demo_world_trace:
  "trace (video_run demo_world ''medium'' demo_videos) =
     [ProgressUpdated 33 (msg_compressing @ ''in.mp4''),
      ResultStored ''in.mp4''
        \<lparr>success = True, output = Some ''in_compressed.mp4'', input_size = Some 1000,
         output_size = Some 1200, compression_ratio = Some (- 20), error = None\<rparr>,
      ProgressUpdated 66 (msg_compressing @ ''bad.mp4''),
      ResultStored ''bad.mp4'' (failed_result ''No ffmpeg exe could be found''),
      ErrorOccurred (msg_compress_failed @ ''bad.mp4'' @ '': '' @ ''No ffmpeg exe could be found''),
      ProgressUpdated 100 (msg_compressing @ ''empty.mp4''),
      ResultStored ''empty.mp4'' (failed_result ''division by zero''),
      ErrorOccurred ''division by zero'',
      CompressionComplete (results (video_run demo_world ''medium'' demo_videos))]"
proof -
  have l: "length demo_videos = 3" by (simp add: demo_videos_def)
  have "concat (map (\<lambda>(i, f). video_block (demo_world i) ''medium'' 3 i f) (enumerate 0 demo_videos)) =
        video_block (demo_world 0) ''medium'' 3 0 \<lparr>path = ''in.mp4'', output_path = ''in_compressed.mp4''\<rparr> @
        video_block (demo_world 1) ''medium'' 3 1 \<lparr>path = ''bad.mp4'', output_path = ''bad_compressed.mp4''\<rparr> @
        video_block (demo_world 2) ''medium'' 3 2
          \<lparr>path = ''empty.mp4'', output_path = ''empty_compressed.mp4''\<rparr>"
    unfolding demo_enumerate_videos by simp
  then show ?thesis
    unfolding video_run_trace l demo_block_in demo_block_bad demo_block_empty by simp
qed

theorem event_order_witness:
  "(1::nat) < length demo_videos \<and> (0::nat) < length demo_images \<and>
   (\<exists>blocks p s r notices.
      trace (video_run demo_world ''medium'' demo_videos) =
        concat blocks @ [CompressionComplete (results (video_run demo_world ''medium'' demo_videos))] \<and>
      length blocks = length demo_videos \<and>
      blocks ! 1 = ProgressUpdated p s # ResultStored (path (demo_videos ! 1)) r # notices) \<and>
   (\<exists>blocks p s saves r notices.
      trace (image_run (\<lambda>i. demo_image_env) ''out'' 85 demo_images) =
        concat blocks @
        [ConversionComplete (results (image_run (\<lambda>i. demo_image_env) ''out'' 85 demo_images))] \<and>
      length blocks = length demo_images \<and>
      blocks ! 0 = ProgressUpdated p s # saves @ ResultStored (path (demo_images ! 0)) r # notices) \<and>
   trace (video_run demo_world ''medium'' demo_videos) =
     [ProgressUpdated 33 (msg_compressing @ ''in.mp4''),
      ResultStored ''in.mp4''
        \<lparr>success = True, output = Some ''in_compressed.mp4'', input_size = Some 1000,
         output_size = Some 1200, compression_ratio = Some (- 20), error = None\<rparr>,
      ProgressUpdated 66 (msg_compressing @ ''bad.mp4''),
      ResultStored ''bad.mp4'' (failed_result ''No ffmpeg exe could be found''),
      ErrorOccurred (msg_compress_failed @ ''bad.mp4'' @ '': '' @ ''No ffmpeg exe could be found''),
      ProgressUpdated 100 (msg_compressing @ ''empty.mp4''),
      ResultStored ''empty.mp4'' (failed_result ''division by zero''),
      ErrorOccurred ''division by zero'',
      CompressionComplete (results (video_run demo_world ''medium'' demo_videos))]"
proof -
  have lv: "(1::nat) < length demo_videos" by (simp add: demo_videos_def)
  have li: "(0::nat) < length demo_images" by (simp add: demo_images_def)
  note t = event_order [of demo_world "''medium''" demo_videos "\<lambda>i. demo_image_env" "''out''" 85
      demo_images]
  from t obtain vb where vb:
    "trace (video_run demo_world ''medium'' demo_videos) =
       concat vb @ [CompressionComplete (results (video_run demo_world ''medium'' demo_videos))]"
    "length vb = length demo_videos"
    "\<forall>i<length demo_videos. \<exists>p s r notices.
       vb ! i = ProgressUpdated p s # ResultStored (path (demo_videos ! i)) r # notices \<and>
       (\<forall>e \<in> set notices. \<exists>m. e = ErrorOccurred m)"
    by (elim conjE exE)
  from vb(3) lv obtain p s r notices where
    "vb ! 1 = ProgressUpdated p s # ResultStored (path (demo_videos ! 1)) r # notices"
    by blast
  with vb(1,2) have 1: "\<exists>blocks p s r notices.
      trace (video_run demo_world ''medium'' demo_videos) =
        concat blocks @ [CompressionComplete (results (video_run demo_world ''medium'' demo_videos))] \<and>
      length blocks = length demo_videos \<and>
      blocks ! 1 = ProgressUpdated p s # ResultStored (path (demo_videos ! 1)) r # notices"
    by blast
  from t obtain ib where ib:
    "trace (image_run (\<lambda>i. demo_image_env) ''out'' 85 demo_images) =
       concat ib @
       [ConversionComplete (results (image_run (\<lambda>i. demo_image_env) ''out'' 85 demo_images))]"
    "length ib = length demo_images"
    "\<forall>i<length demo_images. \<exists>p s saves r notices.
       ib ! i = ProgressUpdated p s # saves @ ResultStored (path (demo_images ! i)) r # notices \<and>
       (\<forall>e \<in> set saves. \<exists>img pth fmt q l. e = ImageSaved img pth fmt q l) \<and>
       (\<forall>e \<in> set notices. \<exists>m. e = ErrorOccurred m)"
    by (elim conjE exE)
  from ib(3) li obtain p' s' saves' r' notices' where
    "ib ! 0 = ProgressUpdated p' s' # saves' @ ResultStored (path (demo_images ! 0)) r' # notices'"
    by blast
  with ib(1,2) have 2: "\<exists>blocks p s saves r notices.
      trace (image_run (\<lambda>i. demo_image_env) ''out'' 85 demo_images) =
        concat blocks @
        [ConversionComplete (results (image_run (\<lambda>i. demo_image_env) ''out'' 85 demo_images))] \<and>
      length blocks = length demo_images \<and>
      blocks ! 0 = ProgressUpdated p s # saves @ ResultStored (path (demo_images ! 0)) r # notices"
    by blast
  from lv li 1 2 demo_world_trace show ?thesis by (intro conjI)
qed

lemma image_block_saves:
  "ImageSaved img pth fmt q l \<in> set (image_block env output_dir quality total_files index f) \<Longrightarrow>
   fmt = ''WEBP'' \<and> q = quality \<and> l = False \<and> pth = path_join env output_dir (output_name f) \<and>
   image_prepare env f = Inr img"
  by (auto simp: image_block_def image_saves_def image_notices_def split: sum.splits option.splits)

lemma image_block_alpha:
  assumes "image_open env (path f) = Inr img" and "has_alpha img"
    and "convert env img ''RGBA'' = Inr img'"
  shows "\<exists>notices.
     image_block env output_dir quality total_files index f =
       [ProgressUpdated (percent index total_files) (msg_converting @ basename env (path f)),
        ImageSaved img' (path_join env output_dir (output_name f)) ''WEBP'' quality False,
        ResultStored (path f) (image_outcome env output_dir quality f)] @ notices"
  using assms by (simp add: image_block_def image_saves_def image_prepare_def)

lemma image_outcome_cases:
  "(image_fault env output_dir quality f = None \<longrightarrow>
      image_outcome env output_dir quality f =
        \<lparr>success = True, output = Some (path_join env output_dir (output_name f)),
         input_size = None, output_size = None, compression_ratio = None, error = None\<rparr>) \<and>
   (\<forall>e. image_fault env output_dir quality f = Some e \<longrightarrow>
      image_outcome env output_dir quality f = failed_result (str_exn e))"
  by (simp add: image_outcome_def)

lemma image_outcome_metrics:
  "success (image_outcome env output_dir quality f) \<Longrightarrow>
   input_size (image_outcome env output_dir quality f) = None \<and>
   output_size (image_outcome env output_dir quality f) = None \<and>
   compression_ratio (image_outcome env output_dir quality f) = None"
  by (simp add: image_outcome_def failed_result_def split: option.splits)

lemma map_of_update_same: "map_of (AList.update k v al) k = Some v"
  by (simp add: update_conv')

lemma image_block_prepared:
  assumes "image_prepare env f = Inr img"
  shows "\<exists>notices.
     image_block env output_dir quality total_files index f =
       [ProgressUpdated (percent index total_files) (msg_converting @ basename env (path f)),
        ImageSaved img (path_join env output_dir (output_name f)) ''WEBP'' quality False,
        ResultStored (path f) (image_outcome env output_dir quality f)] @ notices"
  using assms by (simp add: image_block_def image_saves_def)

lemma image_block_unprepared:
  assumes "image_prepare env f = Inl e"
  shows "image_block env output_dir quality total_files index f =
       [ProgressUpdated (percent index total_files) (msg_converting @ basename env (path f)),
        ResultStored (path f) (failed_result (str_exn e)),
        ErrorOccurred (msg_convert_failed @ basename env (path f) @ '': '' @ str_exn e)]"
  using assms
  by (simp add: image_block_def image_saves_def image_outcome_def image_notices_def
        image_fault_def)

text \<open>
  C9. In an iteration of the image worker: when the opened image has mode \<open>RGBA\<close> or
  \<open>LA\<close>, or mode \<open>P\<close> with a \<open>transparency\<close> entry in its info, the image passed to
  \<open>save\<close> is the result of \<open>convert('RGBA')\<close>; every \<open>save\<close> is called with format
  \<open>WEBP\<close>, the worker's quality and \<open>lossless=False\<close>; the result stored for a success
  has the output path and no size or ratio entries; the result stored after an exception
  of \<open>Image.open\<close>, \<open>convert\<close> or \<open>save\<close> is Failed with \<open>str(e)\<close> as its error.
  An opened image without alpha is passed to \<open>save\<close> as it is: every image that
  \<open>Image.open\<close> and, where it applies, \<open>convert\<close> deliver is encoded, right after the
  progress signal and before the result is stored; when one of the two raises, nothing
  is encoded.
\<close>

theorem image_item_contract:
  assumes "total_files \<noteq> 0"
  shows "(\<forall>img img'. image_open env (path f) = Inr img \<and>
            (mode img \<in> {''RGBA'', ''LA''} \<or>
             (mode img = ''P'' \<and> ''transparency'' \<in> set (info img))) \<and>
            convert env img ''RGBA'' = Inr img' \<longrightarrow>
            (\<exists>r notices.
               trace (image_item env output_dir quality total_files index f w) =
                 trace w @
                 [ProgressUpdated (percent index total_files) (msg_converting @ basename env (path f)),
                  ImageSaved img' (path_join env output_dir (output_name f)) ''WEBP'' quality False,
                  ResultStored (path f) r] @ notices)) \<and>
         (\<exists>blk. trace (image_item env output_dir quality total_files index f w) = trace w @ blk \<and>
            (\<forall>img pth fmt q l. ImageSaved img pth fmt q l \<in> set blk \<longrightarrow>
               fmt = ''WEBP'' \<and> q = quality \<and> l = False \<and>
               pth = path_join env output_dir (output_name f))) \<and>
         (\<exists>r. map_of (results (image_item env output_dir quality total_files index f w)) (path f) = Some r \<and>
            (image_fault env output_dir quality f = None \<longrightarrow>
               r = \<lparr>success = True, output = Some (path_join env output_dir (output_name f)),
                    input_size = None, output_size = None, compression_ratio = None,
                    error = None\<rparr>) \<and>
            (success r \<longrightarrow> input_size r = None \<and> output_size r = None \<and> compression_ratio r = None) \<and>
            (\<forall>e. image_fault env output_dir quality f = Some e \<longrightarrow>
               r = failed_result (str_exn e) \<and> \<not> success r \<and> error r = Some (str_exn e))) \<and>
         (\<forall>img. image_open env (path f) = Inr img \<and>
            \<not> (mode img \<in> {''RGBA'', ''LA''} \<or>
               (mode img = ''P'' \<and> ''transparency'' \<in> set (info img))) \<longrightarrow>
            (\<exists>r notices.
               trace (image_item env output_dir quality total_files index f w) =
                 trace w @
                 [ProgressUpdated (percent index total_files) (msg_converting @ basename env (path f)),
                  ImageSaved img (path_join env output_dir (output_name f)) ''WEBP'' quality False,
                  ResultStored (path f) r] @ notices)) \<and>
         (\<forall>img. image_prepare env f = Inr img \<longrightarrow>
            (\<exists>r notices.
               trace (image_item env output_dir quality total_files index f w) =
                 trace w @
                 [ProgressUpdated (percent index total_files) (msg_converting @ basename env (path f)),
                  ImageSaved img (path_join env output_dir (output_name f)) ''WEBP'' quality False,
                  ResultStored (path f) r] @ notices)) \<and>
         (\<forall>e. image_prepare env f = Inl e \<longrightarrow>
            trace (image_item env output_dir quality total_files index f w) =
              trace w @
              [ProgressUpdated (percent index total_files) (msg_converting @ basename env (path f)),
               ResultStored (path f) (failed_result (str_exn e)),
               ErrorOccurred (msg_convert_failed @ basename env (path f) @ '': '' @ str_exn e)])"
proof (intro conjI)
  show "\<forall>img img'. image_open env (path f) = Inr img \<and>
            (mode img \<in> {''RGBA'', ''LA''} \<or>
             (mode img = ''P'' \<and> ''transparency'' \<in> set (info img))) \<and>
            convert env img ''RGBA'' = Inr img' \<longrightarrow>
            (\<exists>r notices.
               trace (image_item env output_dir quality total_files index f w) =
                 trace w @
                 [ProgressUpdated (percent index total_files) (msg_converting @ basename env (path f)),
                  ImageSaved img' (path_join env output_dir (output_name f)) ''WEBP'' quality False,
                  ResultStored (path f) r] @ notices)"
  proof (intro allI impI)
    fix img img'
    assume h: "image_open env (path f) = Inr img \<and>
            (mode img \<in> {''RGBA'', ''LA''} \<or>
             (mode img = ''P'' \<and> ''transparency'' \<in> set (info img))) \<and>
            convert env img ''RGBA'' = Inr img'"
    then have a: "has_alpha img" by (simp add: has_alpha_def)
    from h have o: "image_open env (path f) = Inr img" and c: "convert env img ''RGBA'' = Inr img'"
      by simp_all
    from image_block_alpha [OF o a c, of output_dir quality total_files index]
    obtain notices where
      "image_block env output_dir quality total_files index f =
       [ProgressUpdated (percent index total_files) (msg_converting @ basename env (path f)),
        ImageSaved img' (path_join env output_dir (output_name f)) ''WEBP'' quality False,
        ResultStored (path f) (image_outcome env output_dir quality f)] @ notices"
      by (rule exE)
    then show "\<exists>r notices.
               trace (image_item env output_dir quality total_files index f w) =
                 trace w @
                 [ProgressUpdated (percent index total_files) (msg_converting @ basename env (path f)),
                  ImageSaved img' (path_join env output_dir (output_name f)) ''WEBP'' quality False,
                  ResultStored (path f) r] @ notices"
      unfolding image_item_trace [OF assms] by blast
  qed
next
  have "\<forall>img pth fmt q l.
          ImageSaved img pth fmt q l \<in> set (image_block env output_dir quality total_files index f) \<longrightarrow>
          fmt = ''WEBP'' \<and> q = quality \<and> l = False \<and>
          pth = path_join env output_dir (output_name f)"
    using image_block_saves by blast
  then show "\<exists>blk. trace (image_item env output_dir quality total_files index f w) = trace w @ blk \<and>
            (\<forall>img pth fmt q l. ImageSaved img pth fmt q l \<in> set blk \<longrightarrow>
               fmt = ''WEBP'' \<and> q = quality \<and> l = False \<and>
               pth = path_join env output_dir (output_name f))"
    using image_item_trace [OF assms, of env output_dir quality index f w] by blast
next
  let ?r = "image_outcome env output_dir quality f"
  have m: "map_of (results (image_item env output_dir quality total_files index f w)) (path f) = Some ?r"
    unfolding image_item_results [OF assms] by (rule map_of_update_same)
  have f1: "\<forall>e. image_fault env output_dir quality f = Some e \<longrightarrow>
               ?r = failed_result (str_exn e) \<and> \<not> success ?r \<and> error ?r = Some (str_exn e)"
    by (simp add: image_outcome_def failed_result_def)
  from m image_outcome_cases [of env output_dir quality f]
    image_outcome_metrics [of env output_dir quality f] f1
  show "\<exists>r. map_of (results (image_item env output_dir quality total_files index f w)) (path f) = Some r \<and>
            (image_fault env output_dir quality f = None \<longrightarrow>
               r = \<lparr>success = True, output = Some (path_join env output_dir (output_name f)),
                    input_size = None, output_size = None, compression_ratio = None,
                    error = None\<rparr>) \<and>
            (success r \<longrightarrow> input_size r = None \<and> output_size r = None \<and> compression_ratio r = None) \<and>
            (\<forall>e. image_fault env output_dir quality f = Some e \<longrightarrow>
               r = failed_result (str_exn e) \<and> \<not> success r \<and> error r = Some (str_exn e))"
    by (intro exI [of _ ?r] conjI impI) (simp_all only:)
next
  show "\<forall>img. image_open env (path f) = Inr img \<and>
            \<not> (mode img \<in> {''RGBA'', ''LA''} \<or>
               (mode img = ''P'' \<and> ''transparency'' \<in> set (info img))) \<longrightarrow>
            (\<exists>r notices.
               trace (image_item env output_dir quality total_files index f w) =
                 trace w @
                 [ProgressUpdated (percent index total_files) (msg_converting @ basename env (path f)),
                  ImageSaved img (path_join env output_dir (output_name f)) ''WEBP'' quality False,
                  ResultStored (path f) r] @ notices)"
  proof (intro allI impI)
    fix img
    assume h: "image_open env (path f) = Inr img \<and>
            \<not> (mode img \<in> {''RGBA'', ''LA''} \<or>
               (mode img = ''P'' \<and> ''transparency'' \<in> set (info img)))"
    then have "image_prepare env f = Inr img"
      by (auto simp add: image_prepare_def has_alpha_def)
    from image_block_prepared [OF this, of output_dir quality total_files index]
    show "\<exists>r notices.
               trace (image_item env output_dir quality total_files index f w) =
                 trace w @
                 [ProgressUpdated (percent index total_files) (msg_converting @ basename env (path f)),
                  ImageSaved img (path_join env output_dir (output_name f)) ''WEBP'' quality False,
                  ResultStored (path f) r] @ notices"
      unfolding image_item_trace [OF assms] by blast
  qed
next
  show "\<forall>img. image_prepare env f = Inr img \<longrightarrow>
            (\<exists>r notices.
               trace (image_item env output_dir quality total_files index f w) =
                 trace w @
                 [ProgressUpdated (percent index total_files) (msg_converting @ basename env (path f)),
                  ImageSaved img (path_join env output_dir (output_name f)) ''WEBP'' quality False,
                  ResultStored (path f) r] @ notices)"
  proof (intro allI impI)
    fix img
    assume "image_prepare env f = Inr img"
    from image_block_prepared [OF this, of output_dir quality total_files index]
    show "\<exists>r notices.
               trace (image_item env output_dir quality total_files index f w) =
                 trace w @
                 [ProgressUpdated (percent index total_files) (msg_converting @ basename env (path f)),
                  ImageSaved img (path_join env output_dir (output_name f)) ''WEBP'' quality False,
                  ResultStored (path f) r] @ notices"
      unfolding image_item_trace [OF assms] by blast
  qed
next
  show "\<forall>e. image_prepare env f = Inl e \<longrightarrow>
            trace (image_item env output_dir quality total_files index f w) =
              trace w @
              [ProgressUpdated (percent index total_files) (msg_converting @ basename env (path f)),
               ResultStored (path f) (failed_result (str_exn e)),
               ErrorOccurred (msg_convert_failed @ basename env (path f) @ '': '' @ str_exn e)]"
  proof (intro allI impI)
    fix e
    assume "image_prepare env f = Inl e"
    then show "trace (image_item env output_dir quality total_files index f w) =
              trace w @
              [ProgressUpdated (percent index total_files) (msg_converting @ basename env (path f)),
               ResultStored (path f) (failed_result (str_exn e)),
               ErrorOccurred (msg_convert_failed @ basename env (path f) @ '': '' @ str_exn e)]"
      unfolding image_item_trace [OF assms] by (simp only: image_block_unprepared)
  qed
qed
theorem image_item_contract_witness:
  "(2::nat) \<noteq> 0 \<and>
   image_open demo_image_env ''logo.png'' = Inr \<lparr>mode = ''RGBA'', info = [], pixels = 7\<rparr> \<and>
   convert demo_image_env \<lparr>mode = ''RGBA'', info = [], pixels = 7\<rparr> ''RGBA'' =
     Inr \<lparr>mode = ''RGBA'', info = [], pixels = 8\<rparr> \<and>
   (\<exists>r notices.
      trace (image_item demo_image_env ''out'' 85 2 0
               \<lparr>path = ''logo.png'', output_name = ''logo.webp''\<rparr> image_init) =
        [ProgressUpdated 50 (msg_converting @ ''logo.png''),
         ImageSaved \<lparr>mode = ''RGBA'', info = [], pixels = 8\<rparr> ''out/logo.webp'' ''WEBP'' 85 False,
         ResultStored ''logo.png'' r] @ notices) \<and>
   map_of (results (image_item demo_image_env ''out'' 85 2 0
                      \<lparr>path = ''logo.png'', output_name = ''logo.webp''\<rparr> image_init)) ''logo.png'' =
     Some \<lparr>success = True, output = Some ''out/logo.webp'', input_size = None,
           output_size = None, compression_ratio = None, error = None\<rparr> \<and>
   map_of (results (image_item demo_image_env ''out'' 85 2 1
                      \<lparr>path = ''broken.png'', output_name = ''broken.webp''\<rparr> image_init))
     ''broken.png'' = Some (failed_result ''cannot identify image file'') \<and>
   image_open demo_image_env ''photo.jpg'' = Inr \<lparr>mode = ''RGB'', info = [], pixels = 7\<rparr> \<and>
   (\<exists>r notices.
      trace (image_item demo_image_env ''out'' 85 2 1
               \<lparr>path = ''photo.jpg'', output_name = ''photo.webp''\<rparr> image_init) =
        [ProgressUpdated 100 (msg_converting @ ''photo.jpg''),
         ImageSaved \<lparr>mode = ''RGB'', info = [], pixels = 7\<rparr> ''out/photo.webp'' ''WEBP'' 85 False,
         ResultStored ''photo.jpg'' r] @ notices) \<and>
   trace (image_item demo_image_env ''out'' 85 2 1
            \<lparr>path = ''broken.png'', output_name = ''broken.webp''\<rparr> image_init) =
     [ProgressUpdated 100 (msg_converting @ ''broken.png''),
      ResultStored ''broken.png'' (failed_result ''cannot identify image file''),
      ErrorOccurred (msg_convert_failed @ ''broken.png'' @ '': '' @ ''cannot identify image file'')]"
proof -
  let ?logo = "\<lparr>path = ''logo.png'', output_name = ''logo.webp''\<rparr>"
  let ?broken = "\<lparr>path = ''broken.png'', output_name = ''broken.webp''\<rparr>"
  let ?img = "\<lparr>mode = ''RGBA'', info = [], pixels = 7\<rparr>"
  let ?img' = "\<lparr>mode = ''RGBA'', info = [], pixels = 8\<rparr>"
  have nz: "(2::nat) \<noteq> 0" by simp
  have o: "image_open demo_image_env ''logo.png'' = Inr ?img"
    by (simp add: demo_image_env_def)
  have c: "convert demo_image_env ?img ''RGBA'' = Inr ?img'"
    by (simp add: demo_image_env_def)
  have h: "image_open demo_image_env (path ?logo) = Inr ?img \<and>
           (mode ?img \<in> {''RGBA'', ''LA''} \<or>
            (mode ?img = ''P'' \<and> ''transparency'' \<in> set (info ?img))) \<and>
           convert demo_image_env ?img ''RGBA'' = Inr ?img'"
    using o c by simp
  note t_logo = image_item_contract [OF nz, of demo_image_env ?logo "''out''" 85 0 image_init]
  note t_broken = image_item_contract [OF nz, of demo_image_env ?broken "''out''" 85 1 image_init]
  have p: "percent 0 2 = 50" by (rule percent_0_2)
  from t_logo have "\<forall>img img'. image_open demo_image_env (path ?logo) = Inr img \<and>
            (mode img \<in> {''RGBA'', ''LA''} \<or>
             (mode img = ''P'' \<and> ''transparency'' \<in> set (info img))) \<and>
            convert demo_image_env img ''RGBA'' = Inr img' \<longrightarrow>
            (\<exists>r notices.
               trace (image_item demo_image_env ''out'' 85 2 0 ?logo image_init) =
                 trace image_init @
                 [ProgressUpdated (percent 0 2) (msg_converting @ basename demo_image_env (path ?logo)),
                  ImageSaved img' (path_join demo_image_env ''out'' (output_name ?logo)) ''WEBP'' 85 False,
                  ResultStored (path ?logo) r] @ notices)"
    by (rule conjunct1)
  from this [rule_format, OF h] have 1: "\<exists>r notices.
      trace (image_item demo_image_env ''out'' 85 2 0 ?logo image_init) =
        [ProgressUpdated 50 (msg_converting @ ''logo.png''),
         ImageSaved ?img' ''out/logo.webp'' ''WEBP'' 85 False,
         ResultStored ''logo.png'' r] @ notices"
    by (simp add: p image_init_def demo_image_env_def)
  have fl0: "image_fault demo_image_env ''out'' 85 ?logo = None"
    by (simp add: image_fault_def image_prepare_def has_alpha_def demo_image_env_def)
  from t_logo obtain r where r:
    "map_of (results (image_item demo_image_env ''out'' 85 2 0 ?logo image_init)) (path ?logo) = Some r"
    "image_fault demo_image_env ''out'' 85 ?logo = None \<longrightarrow>
       r = \<lparr>success = True, output = Some (path_join demo_image_env ''out'' (output_name ?logo)),
            input_size = None, output_size = None, compression_ratio = None, error = None\<rparr>"
    by (elim conjE exE)
  from r fl0 have 2: "map_of (results (image_item demo_image_env ''out'' 85 2 0 ?logo image_init))
      ''logo.png'' = Some \<lparr>success = True, output = Some ''out/logo.webp'', input_size = None,
           output_size = None, compression_ratio = None, error = None\<rparr>"
    by (simp add: demo_image_env_def)
  from t_broken obtain r' where r':
    "map_of (results (image_item demo_image_env ''out'' 85 2 1 ?broken image_init)) (path ?broken) = Some r'"
    "\<forall>e. image_fault demo_image_env ''out'' 85 ?broken = Some e \<longrightarrow>
       r' = failed_result (str_exn e) \<and> \<not> success r' \<and> error r' = Some (str_exn e)"
    by (elim conjE exE)
  from r'(2) [rule_format, OF demo_fault_broken] r'(1)
  have 3: "map_of (results (image_item demo_image_env ''out'' 85 2 1 ?broken image_init))
      ''broken.png'' = Some (failed_result ''cannot identify image file'')"
    by simp
  let ?photo = "\<lparr>path = ''photo.jpg'', output_name = ''photo.webp''\<rparr>"
  let ?rgb = "\<lparr>mode = ''RGB'', info = [], pixels = 7\<rparr>"
  note t_photo = image_item_contract [OF nz, of demo_image_env ?photo "''out''" 85 1 image_init]
  have p1: "percent (Suc 0) 2 = 100" using percent_last [of 2] by simp
  have bn: "\<And>x. basename demo_image_env x = x" by (simp add: demo_image_env_def)
  have pj: "\<And>d x. path_join demo_image_env d x = d @ ''/'' @ x"
    by (simp add: demo_image_env_def)
  have o2: "image_open demo_image_env ''photo.jpg'' = Inr ?rgb"
    by (simp add: demo_image_env_def)
  have h2: "image_open demo_image_env (path ?photo) = Inr ?rgb \<and>
            \<not> (mode ?rgb \<in> {''RGBA'', ''LA''} \<or>
               (mode ?rgb = ''P'' \<and> ''transparency'' \<in> set (info ?rgb)))"
    using o2 by simp
  from t_photo have "\<forall>img. image_open demo_image_env (path ?photo) = Inr img \<and>
            \<not> (mode img \<in> {''RGBA'', ''LA''} \<or>
               (mode img = ''P'' \<and> ''transparency'' \<in> set (info img))) \<longrightarrow>
            (\<exists>r notices.
               trace (image_item demo_image_env ''out'' 85 2 1 ?photo image_init) =
                 trace image_init @
                 [ProgressUpdated (percent 1 2) (msg_converting @ basename demo_image_env (path ?photo)),
                  ImageSaved img (path_join demo_image_env ''out'' (output_name ?photo)) ''WEBP'' 85 False,
                  ResultStored (path ?photo) r] @ notices)"
    by (elim conjE) assumption
  from this [rule_format, OF h2] have 4: "\<exists>r notices.
      trace (image_item demo_image_env ''out'' 85 2 1 ?photo image_init) =
        [ProgressUpdated 100 (msg_converting @ ''photo.jpg''),
         ImageSaved ?rgb ''out/photo.webp'' ''WEBP'' 85 False,
         ResultStored ''photo.jpg'' r] @ notices"
    by (simp add: p1 image_init_def bn pj)
  have pb: "image_prepare demo_image_env ?broken =
              Inl (Exn OtherException ''cannot identify image file'')"
    by (simp add: image_prepare_def demo_image_env_def)
  from t_broken have "\<forall>e. image_prepare demo_image_env ?broken = Inl e \<longrightarrow>
            trace (image_item demo_image_env ''out'' 85 2 1 ?broken image_init) =
              trace image_init @
              [ProgressUpdated (percent 1 2) (msg_converting @ basename demo_image_env (path ?broken)),
               ResultStored (path ?broken) (failed_result (str_exn e)),
               ErrorOccurred (msg_convert_failed @ basename demo_image_env (path ?broken) @ '': '' @
                 str_exn e)]"
    by (elim conjE) assumption
  from this [rule_format, OF pb] have 5:
    "trace (image_item demo_image_env ''out'' 85 2 1 ?broken image_init) =
     [ProgressUpdated 100 (msg_converting @ ''broken.png''),
      ResultStored ''broken.png'' (failed_result ''cannot identify image file''),
      ErrorOccurred (msg_convert_failed @ ''broken.png'' @ '': '' @ ''cannot identify image file'')]"
    by (simp add: p1 image_init_def bn pj)
  from nz o c 1 2 3 o2 4 5 show ?thesis by (intro conjI)
qed

section \<open>An encoder that cannot be resolved\<close>



end
